theory Spec2Isabelle
  imports Main "HOL-Library.AList" "HOL-Library.Sublist"
begin

text \<open>
  The c9 object store: storage nodes (buckets) that keep files and report their spec, a
  registry that passes their \<open>register\<close>, \<open>update\<close> and \<open>unregister\<close> events on to
  the subscribed managers, and a manager that places each upload on the nearest
  bucket with enough space and on a backup. The functions of the Python sources are
  embedded as functions on explicit state; the theorems of the second half are about
  these functions.
\<close>

section \<open>Python values: text, bytes and exceptions\<close>

text \<open>
  A Python \<open>bytes\<close> value is a list of 8-bit characters; a Python \<open>str\<close> is a list of
  Unicode code points, so that \<open>len\<close> of a \<open>str\<close> counts code points and \<open>len\<close> of a
  \<open>bytes\<close> counts bytes, as in the interpreter. \<open>ENCODING\<close> is UTF-8 throughout, and
  \<open>encode\<close> / \<open>decode\<close> are the strict codec (\<open>str.encode\<close>, \<open>bytes.decode\<close>).
  An exception raised by the source is a value \<open>Inl e\<close> of the result.
\<close>

type_synonym bytes = "char list"
type_synonym str = "nat list"

datatype exn = ValueError | IndexError | KeyError | AttributeError | TypeError
  | RuntimeError | NotFoundError | UnicodeEncodeError | UnicodeDecodeError
  | ConnectionRefusedError

definition then_do :: "exn + 'a \<Rightarrow> ('a \<Rightarrow> exn + 'b) \<Rightarrow> exn + 'b" where
  "then_do r f = (case r of Inl e \<Rightarrow> Inl e | Inr x \<Rightarrow> f x)"

definition ascii :: "string \<Rightarrow> str" where
  "ascii s = map of_char s"

definition encode_char :: "nat \<Rightarrow> exn + bytes" where
  "encode_char cp =
     (if cp < 0x80 then Inr [char_of cp]
      else if cp < 0x800 then
        Inr [char_of (0xC0 + cp div 0x40), char_of (0x80 + cp mod 0x40)]
      else if 0xD800 \<le> cp \<and> cp < 0xE000 then Inl UnicodeEncodeError
      else if cp < 0x10000 then
        Inr [char_of (0xE0 + cp div 0x1000), char_of (0x80 + cp div 0x40 mod 0x40),
             char_of (0x80 + cp mod 0x40)]
      else if cp < 0x110000 then
        Inr [char_of (0xF0 + cp div 0x40000), char_of (0x80 + cp div 0x1000 mod 0x40),
             char_of (0x80 + cp div 0x40 mod 0x40), char_of (0x80 + cp mod 0x40)]
      else Inl UnicodeEncodeError)"

fun encode :: "str \<Rightarrow> exn + bytes" where
  "encode [] = Inr []"
| "encode (cp # s) =
     then_do (encode_char cp) (\<lambda>bs. then_do (encode s) (\<lambda>rest. Inr (bs @ rest)))"

definition cont :: "char \<Rightarrow> bool" where
  "cont c = (0x80 \<le> (of_char c :: nat) \<and> (of_char c :: nat) \<le> 0xBF)"

definition low6 :: "char \<Rightarrow> nat" where
  "low6 c = of_char c mod 0x40"

definition decode2 :: "nat \<Rightarrow> bytes \<Rightarrow> exn + nat \<times> bytes" where
  "decode2 b cs =
     (case cs of
        c1 # r \<Rightarrow>
          if cont c1 then Inr ((b mod 0x20) * 0x40 + low6 c1, r) else Inl UnicodeDecodeError
      | _ \<Rightarrow> Inl UnicodeDecodeError)"

definition decode3 :: "nat \<Rightarrow> bytes \<Rightarrow> exn + nat \<times> bytes" where
  "decode3 b cs =
     (case cs of
        c1 # c2 # r \<Rightarrow>
          if cont c1 \<and> cont c2
             \<and> (if b = 0xE0 then 0xA0 \<le> (of_char c1 :: nat) else True)
             \<and> (if b = 0xED then (of_char c1 :: nat) \<le> 0x9F else True)
          then Inr ((b mod 0x10) * 0x1000 + low6 c1 * 0x40 + low6 c2, r)
          else Inl UnicodeDecodeError
      | _ \<Rightarrow> Inl UnicodeDecodeError)"

definition decode4 :: "nat \<Rightarrow> bytes \<Rightarrow> exn + nat \<times> bytes" where
  "decode4 b cs =
     (case cs of
        c1 # c2 # c3 # r \<Rightarrow>
          if cont c1 \<and> cont c2 \<and> cont c3
             \<and> (if b = 0xF0 then 0x90 \<le> (of_char c1 :: nat) else True)
             \<and> (if b = 0xF4 then (of_char c1 :: nat) \<le> 0x8F else True)
          then Inr ((b mod 0x08) * 0x40000 + low6 c1 * 0x1000 + low6 c2 * 0x40 + low6 c3, r)
          else Inl UnicodeDecodeError
      | _ \<Rightarrow> Inl UnicodeDecodeError)"

text \<open>One character off the front of a byte string: its code point and the bytes left.\<close>

definition decode_char :: "char \<Rightarrow> bytes \<Rightarrow> exn + nat \<times> bytes" where
  "decode_char c cs =
     (let b = (of_char c :: nat) in
      if b < 0x80 then Inr (b, cs)
      else if 0xC2 \<le> b \<and> b \<le> 0xDF then decode2 b cs
      else if 0xE0 \<le> b \<and> b \<le> 0xEF then decode3 b cs
      else if 0xF0 \<le> b \<and> b \<le> 0xF4 then decode4 b cs
      else Inl UnicodeDecodeError)"

lemma decode2_shorter: "decode2 b cs = Inr (cp, r) \<Longrightarrow> length r \<le> length cs"
  by (cases cs) (simp_all add: decode2_def split: if_splits)

lemma decode3_shorter: "decode3 b cs = Inr (cp, r) \<Longrightarrow> length r \<le> length cs"
  by (simp add: decode3_def split: list.splits if_splits)

lemma decode4_shorter: "decode4 b cs = Inr (cp, r) \<Longrightarrow> length r \<le> length cs"
  by (simp add: decode4_def split: list.splits if_splits)

lemma decode_char_shorter: "decode_char c cs = Inr (cp, r) \<Longrightarrow> length r \<le> length cs"
  unfolding decode_char_def Let_def
  by (simp split: if_splits add: decode2_shorter decode3_shorter decode4_shorter)

function decode :: "bytes \<Rightarrow> exn + str" where
  "decode [] = Inr []"
| "decode (c # cs) =
     (case decode_char c cs of
        Inl e \<Rightarrow> Inl e
      | Inr (cp, r) \<Rightarrow> (case decode r of Inl e \<Rightarrow> Inl e | Inr s \<Rightarrow> Inr (cp # s)))"
  by pat_completeness auto
termination
  by (relation "measure length") (auto dest: decode_char_shorter simp: less_Suc_eq_le)

declare decode.simps [simp del]

text \<open>
  \<open>str.strip()\<close> removes the characters for which \<open>str.isspace\<close> holds from both ends;
  \<open>str.split(sep)\<close> cuts at every occurrence of the one-character separator and keeps
  empty fields, so its result is never empty (\<open>split\<close> is \<open>split(" ")\<close>); \<open>str.ljust(n)\<close> pads with spaces on the right up to \<open>n\<close>
  code points.
\<close>

definition isspace :: "nat \<Rightarrow> bool" where
  "isspace c =
     ((9 \<le> c \<and> c \<le> 13) \<or> (28 \<le> c \<and> c \<le> 32) \<or> c = 133 \<or> c = 160 \<or> c = 5760
      \<or> (8192 \<le> c \<and> c \<le> 8202) \<or> c = 8232 \<or> c = 8233 \<or> c = 8239 \<or> c = 8287
      \<or> c = 12288)"

definition strip :: "str \<Rightarrow> str" where
  "strip s = rev (dropWhile isspace (rev (dropWhile isspace s)))"

fun split_on :: "nat \<Rightarrow> str \<Rightarrow> str list" where
  "split_on sep [] = [[]]"
| "split_on sep (c # s) =
     (if c = sep then [] # split_on sep s
      else (case split_on sep s of w # ws \<Rightarrow> (c # w) # ws | [] \<Rightarrow> [[c]]))"

definition split :: "str \<Rightarrow> str list" where
  "split s = split_on 32 s"

definition ljust :: "nat \<Rightarrow> str \<Rightarrow> str" where
  "ljust n s = s @ replicate (n - length s) 32"

text \<open>Decimal rendering of an integer, as an f-string formats an \<open>int\<close>.\<close>

function str_nat :: "nat \<Rightarrow> str" where
  "str_nat n = (if n < 10 then [48 + n] else str_nat (n div 10) @ [48 + n mod 10])"
  by pat_completeness auto
termination
  by (relation "measure id") auto

declare str_nat.simps [simp del]

definition str_int :: "int \<Rightarrow> str" where
  "str_int i = (if i < 0 then 45 # str_nat (nat (- i)) else str_nat (nat i))"

text \<open>
  \<open>int(s)\<close> for a \<open>str\<close>, base 10: white space around the literal is dropped, a sign may
  lead, and single underscores may stand between digits. The digits read here are the
  ASCII digits, which is what \<open>str\<close> of an \<open>int\<close> produces; a field written with the
  decimal digits of another script is a \<open>ValueError\<close> in this model.
\<close>

definition isdigit :: "nat \<Rightarrow> bool" where
  "isdigit c = (48 \<le> c \<and> c \<le> 57)"

fun literal_ok :: "str \<Rightarrow> bool" where
  "literal_ok [] = False"
| "literal_ok [c] = isdigit c"
| "literal_ok (c # d # s) = (isdigit c \<and> (if d = 95 then literal_ok s else literal_ok (d # s)))"

definition literal_value :: "str \<Rightarrow> int" where
  "literal_value s = foldl (\<lambda>acc c. if c = 95 then acc else 10 * acc + (int c - 48)) 0 s"

definition py_int :: "str \<Rightarrow> exn + int" where
  "py_int s =
     (let t = strip s;
          negative = (t \<noteq> [] \<and> hd t = 45);
          body = (if t \<noteq> [] \<and> (hd t = 45 \<or> hd t = 43) then tl t else t)
      in if literal_ok body
         then Inr (if negative then - literal_value body else literal_value body)
         else Inl ValueError)"

section \<open>The wire: \<open>Connection\<close> (lib/middleware.py)\<close>

text \<open>
  A connection wraps one stream socket. Its \<open>inbox\<close> holds the byte segments the peer's
  writes arrive as, in order; one \<open>recv(CHUNK_SIZE)\<close> returns at most \<open>CHUNK_SIZE\<close> bytes
  of the first segment and leaves what is beyond them for the next call. An exhausted
  inbox is the peer's end of stream, for which \<open>recv\<close> returns the empty bytes. The
  \<open>outbox\<close> lists what each \<open>sendall\<close> wrote, and \<open>closed\<close> records \<open>close()\<close>.
\<close>

record connection =
  inbox :: "bytes list"
  outbox :: "bytes list"
  closed :: bool

definition CHUNK_SIZE :: nat where
  "CHUNK_SIZE = 1024"

datatype data = Bytes bytes | Str str

definition sendall :: "connection \<Rightarrow> bytes \<Rightarrow> connection" where
  "sendall c b = c\<lparr>outbox := outbox c @ [b]\<rparr>"

definition send :: "connection \<Rightarrow> data \<Rightarrow> exn + connection" where
  "send c d =
     (case d of
        Bytes b \<Rightarrow> Inr (sendall c b)
      | Str s \<Rightarrow> then_do (encode s) (\<lambda>b. Inr (sendall c b)))"

definition receive :: "connection \<Rightarrow> bytes \<times> connection" where
  "receive c =
     (case inbox c of
        [] \<Rightarrow> ([], c)
      | seg # rest \<Rightarrow>
          (take CHUNK_SIZE seg,
           c\<lparr>inbox := (if length seg \<le> CHUNK_SIZE then rest else drop CHUNK_SIZE seg # rest)\<rparr>))"

definition close :: "connection \<Rightarrow> connection" where
  "close c = c\<lparr>closed := True\<rparr>"

definition send_chunk :: "connection \<Rightarrow> str \<Rightarrow> exn + connection" where
  "send_chunk c content =
     (if length content > CHUNK_SIZE then Inl ValueError
      else then_do (encode (ljust CHUNK_SIZE content)) (\<lambda>b. send c (Bytes b)))"

definition fresh :: "bytes list \<Rightarrow> connection" where
  "fresh segs = \<lparr>inbox = segs, outbox = [], closed = False\<rparr>"

section \<open>The storage node: \<open>Bucket\<close> (c9/buckets/__init__.py)\<close>

datatype status_code =
  StatusCode_OK | StatusCode_NOT_FOUND | StatusCode_ERROR | StatusCode_INSUFFICIENT_SPACE

definition StatusCode_value :: "status_code \<Rightarrow> str" where
  "StatusCode_value s =
     (case s of
        StatusCode_OK \<Rightarrow> ascii ''OK''
      | StatusCode_NOT_FOUND \<Rightarrow> ascii ''NOT_FOUND''
      | StatusCode_ERROR \<Rightarrow> ascii ''ERROR''
      | StatusCode_INSUFFICIENT_SPACE \<Rightarrow> ascii ''INSUFFICIENT_SPACE'')"

record spec =
  files_count :: int
  available_space :: int
  used_space :: int

text \<open>
  The bucket's directory \<open>self._path\<close> is a table from file name to content:
  opening a path for writing replaces the content of an existing entry or adds an
  entry, \<open>unlink\<close> removes it, \<open>stat().st_size\<close> is the length of the content, and
  \<open>get_directory_size\<close> adds up the sizes of the entries. \<open>b_pushed\<close> lists the messages the bucket has sent to its
  subjects (the registry endpoints), each with the endpoint it went to.
\<close>

record bucket =
  b_id :: str
  b_host :: str
  b_port :: int
  b_region :: str
  b_path :: str
  b_subjects :: "(str \<times> int) list"
  b_spec :: spec
  b_files :: "(str \<times> bytes) list"
  b_pushed :: "((str \<times> int) \<times> bytes) list"

definition DEFAULT_SPACE :: int where
  "DEFAULT_SPACE = 250000000"

text \<open>\<open>Bucket.__init__\<close>; the identifier drawn by \<open>uuid4\<close> is a parameter.\<close>

definition Bucket_init ::
  "str \<Rightarrow> str \<Rightarrow> int \<Rightarrow> str \<Rightarrow> str \<Rightarrow> (str \<times> int) list \<Rightarrow> bucket" where
  "Bucket_init base_path host port region uuid subjects =
     \<lparr>b_id = uuid, b_host = host, b_port = port, b_region = region,
      b_path = base_path @ [47] @ uuid, b_subjects = subjects,
      b_spec = \<lparr>files_count = 0, available_space = DEFAULT_SPACE, used_space = 0\<rparr>,
      b_files = [], b_pushed = []\<rparr>"

definition get_directory_size :: "(str \<times> bytes) list \<Rightarrow> int" where
  "get_directory_size dir = sum_list (map (\<lambda>entry. int (length (snd entry))) dir)"

definition spec_message :: "bucket \<Rightarrow> str" where
  "spec_message self =
     str_int (files_count (b_spec self)) @ [32] @ str_int (available_space (b_spec self))
       @ [32] @ str_int (used_space (b_spec self))"

type_synonym handled = "exn + status_code \<times> connection \<times> bucket"

definition handle_get :: "bucket \<Rightarrow> connection \<Rightarrow> str list \<Rightarrow> handled" where
  "handle_get self client args =
     (case args of
        [] \<Rightarrow> Inl IndexError
      | filename # _ \<Rightarrow>
          (case map_of (b_files self) filename of
             Some content \<Rightarrow>
               then_do (send client (Str (StatusCode_value StatusCode_OK))) (\<lambda>c1.
               then_do (send c1 (Str (filename @ [32] @ str_int (int (length content))))) (\<lambda>c2.
               then_do (send c2 (Bytes content)) (\<lambda>c3.
               Inr (StatusCode_OK, c3, self))))
           | None \<Rightarrow>
               then_do (send client (Str (StatusCode_value StatusCode_NOT_FOUND))) (\<lambda>c1.
               Inr (StatusCode_NOT_FOUND, c1, self))))"

definition handle_put :: "bucket \<Rightarrow> connection \<Rightarrow> str list \<Rightarrow> handled" where
  "handle_put self client args =
     (case args of
        [] \<Rightarrow> Inl IndexError
      | filename # _ \<Rightarrow>
          (let (content, client1) = receive client in
           if int (length content) > available_space (b_spec self) then
             then_do (send client1 (Str (StatusCode_value StatusCode_INSUFFICIENT_SPACE)))
               (\<lambda>c1. Inr (StatusCode_INSUFFICIENT_SPACE, c1, self))
           else
             (let dir = AList.update filename content (b_files self);
                  self1 = self\<lparr>b_files := dir\<rparr>;
                  self2 = self1\<lparr>b_spec := (b_spec self1)
                            \<lparr>available_space :=
                               available_space (b_spec self1) - int (length content)\<rparr>\<rparr>;
                  self3 = self2\<lparr>b_spec := (b_spec self2)
                            \<lparr>used_space := get_directory_size (b_files self2)\<rparr>\<rparr>;
                  self4 = self3\<lparr>b_spec := (b_spec self3)
                            \<lparr>files_count := files_count (b_spec self3) + 1\<rparr>\<rparr>
              in then_do (send client1 (Str (StatusCode_value StatusCode_OK)))
                   (\<lambda>c1. Inr (StatusCode_OK, c1, self4)))))"

definition handle_delete :: "bucket \<Rightarrow> connection \<Rightarrow> str list \<Rightarrow> handled" where
  "handle_delete self client args =
     (case args of
        [] \<Rightarrow> Inl IndexError
      | filename # _ \<Rightarrow>
          (case map_of (b_files self) filename of
             Some content \<Rightarrow>
               (let self1 = self\<lparr>b_spec := (b_spec self)
                              \<lparr>available_space :=
                                 available_space (b_spec self) + int (length content)\<rparr>\<rparr>;
                    self2 = self1\<lparr>b_files := AList.delete filename (b_files self1)\<rparr>
                in then_do (send client (Str (StatusCode_value StatusCode_OK)))
                     (\<lambda>c1. Inr (StatusCode_OK, c1, self2)))
           | None \<Rightarrow>
               then_do (send client (Str (StatusCode_value StatusCode_NOT_FOUND)))
                 (\<lambda>c1. Inr (StatusCode_NOT_FOUND, c1, self))))"

text \<open>\<open>" ".join(files)\<close> for \<open>handle_list\<close>.\<close>

fun join_space :: "str list \<Rightarrow> str" where
  "join_space [] = []"
| "join_space [w] = w"
| "join_space (w # ws) = w @ [32] @ join_space ws"

definition handle_list :: "bucket \<Rightarrow> connection \<Rightarrow> str list \<Rightarrow> handled" where
  "handle_list self client args =
     then_do (send client (Str (StatusCode_value StatusCode_OK))) (\<lambda>c1.
     then_do (send c1 (Str (join_space (map fst (b_files self))))) (\<lambda>c2.
     Inr (StatusCode_OK, c2, self)))"

definition handle_spec :: "bucket \<Rightarrow> connection \<Rightarrow> str list \<Rightarrow> handled" where
  "handle_spec self client args =
     then_do (send client (Str (StatusCode_value StatusCode_OK))) (\<lambda>c1.
     then_do (send c1 (Str (spec_message self))) (\<lambda>c2.
     Inr (StatusCode_OK, c2, self)))"

text \<open>
  \<open>getattr(self, f"handle_{command.lower()}")\<close>. Only the five handlers have a name of
  this form, all in ASCII letters none of which is the lower case of a character
  outside ASCII, so \<open>lower\<close> maps the ASCII capitals and leaves the other code points,
  which match no handler either way. A name without a handler raises \<open>AttributeError\<close>.
\<close>

definition lower :: "str \<Rightarrow> str" where
  "lower s = map (\<lambda>c. if 65 \<le> c \<and> c \<le> 90 then c + 32 else c) s"

definition getattr_handle :: "str \<Rightarrow> exn + (bucket \<Rightarrow> connection \<Rightarrow> str list \<Rightarrow> handled)" where
  "getattr_handle name =
     (if name = ascii ''get'' then Inr handle_get
      else if name = ascii ''put'' then Inr handle_put
      else if name = ascii ''delete'' then Inr handle_delete
      else if name = ascii ''list'' then Inr handle_list
      else if name = ascii ''spec'' then Inr handle_spec
      else Inl AttributeError)"

text \<open>
  \<open>try_update\<close>, \<open>register\<close> and \<open>unregister\<close>: one message to every subject, each on a
  connection of its own. The endpoints are taken to accept the connection.
\<close>

fun push_all :: "bucket \<Rightarrow> str \<Rightarrow> (str \<times> int) list \<Rightarrow> exn + bucket" where
  "push_all self message [] = Inr self"
| "push_all self message (endpoint # rest) =
     then_do (send (fresh []) (Str message)) (\<lambda>c.
       push_all (self\<lparr>b_pushed := b_pushed self @ map (Pair endpoint) (outbox c)\<rparr>)
         message rest)"

definition register :: "bucket \<Rightarrow> exn + bucket" where
  "register self =
     push_all self
       (ascii ''register '' @ b_id self @ [32] @ b_host self @ [32] @ str_int (b_port self)
          @ [32] @ b_region self @ [32] @ b_path self @ [32] @ spec_message self)
       (b_subjects self)"

definition try_update :: "bucket \<Rightarrow> exn + bucket" where
  "try_update self =
     push_all self (ascii ''update '' @ b_id self @ [32] @ spec_message self) (b_subjects self)"

definition unregister :: "bucket \<Rightarrow> exn + bucket" where
  "unregister self = push_all self (ascii ''unregister '' @ b_id self) (b_subjects self)"

text \<open>
  One turn of the loop of \<open>Bucket.run\<close>: accept a client, read and dispatch its command
  line, close the client, push the update. \<open>run\<close> takes the clients in the order they
  connect. It returns the clients it has served and either the exception that left the
  \<open>while True\<close> loop (and with it \<open>run\<close>) or the bucket as it waits in \<open>accept\<close> with no
  client left.
\<close>

definition serve :: "bucket \<Rightarrow> connection \<Rightarrow> exn + connection \<times> bucket" where
  "serve self conn =
     (let (line, client) = receive conn in
      then_do (decode line) (\<lambda>text.
        (case split (strip text) of
           [] \<Rightarrow> Inl ValueError
         | command # args \<Rightarrow>
             then_do (getattr_handle (lower command)) (\<lambda>handler.
             then_do (handler self client args) (\<lambda>(status, client1, self1).
             then_do (try_update self1) (\<lambda>self2.
             Inr (close client1, self2)))))))"

fun run :: "bucket \<Rightarrow> connection list \<Rightarrow> connection list \<times> (exn + bucket)" where
  "run self [] = ([], Inr self)"
| "run self (conn # waiting) =
     (case serve self conn of
        Inl e \<Rightarrow> ([], Inl e)
      | Inr (client, self1) \<Rightarrow>
          (let (served, outcome) = run self1 waiting in (client # served, outcome)))"

section \<open>The bucket handle and the registry (c9/buckets/api.py)\<close>

text \<open>
  \<open>Client\<close> is the manager-side handle of a bucket; \<open>File\<close> a name with its content.
  A handle reaches its bucket through the network, which gives for a host and port
  either a refusal or a connection whose inbox holds what the remote end will answer.
  \<open>Client.put\<close> has two effects: what it writes to the socket it opened, and what it
  returns or raises. \<open>Client_put_wire\<close> gives both, the bytes written first (one entry
  for each \<open>send\<close>, after whatever the connection had sent before);
  \<open>Client_put\<close> is what the call returns or raises.
\<close>

record client =
  c_host :: str
  c_port :: int
  c_base_path :: str
  c_id :: str
  c_region :: str
  c_files :: "str list"
  c_spec :: "spec option"

record py_file =
  f_name :: str
  f_content :: bytes

type_synonym network = "str \<Rightarrow> int \<Rightarrow> exn + connection"

definition Client_init :: "str \<Rightarrow> int \<Rightarrow> str \<Rightarrow> str \<Rightarrow> str \<Rightarrow> client" where
  "Client_init host port base_path ident region =
     \<lparr>c_host = host, c_port = port, c_base_path = base_path, c_id = ident,
      c_region = region, c_files = [], c_spec = None\<rparr>"

definition Client_put_wire ::
  "network \<Rightarrow> client \<Rightarrow> py_file \<Rightarrow> bytes list \<times> (exn + client)" where
  "Client_put_wire net self f =
     (case net (c_host self) (c_port self) of
        Inl e \<Rightarrow> ([], Inl e)
      | Inr c0 \<Rightarrow>
          (case send c0 (Str (ascii ''PUT '' @ f_name f @ [32]
                               @ str_int (int (length (f_content f))))) of
             Inl e \<Rightarrow> (outbox c0, Inl e)
           | Inr c1 \<Rightarrow>
               (case send c1 (Bytes (f_content f)) of
                  Inl e \<Rightarrow> (outbox c1, Inl e)
                | Inr c2 \<Rightarrow>
                    (outbox c2,
                     (let (reply, c3) = receive c2 in
                      then_do (decode reply) (\<lambda>status.
                        if strip status \<noteq> StatusCode_value StatusCode_OK then
                          (let (more, c4) = receive c3 in
                           then_do (decode more) (\<lambda>error. Inl RuntimeError))
                        else Inr (self\<lparr>c_files := c_files self @ [f_name f]\<rparr>)))))))"

definition Client_put :: "network \<Rightarrow> client \<Rightarrow> py_file \<Rightarrow> exn + client" where
  "Client_put net self f = snd (Client_put_wire net self f)"

definition Client_get :: "network \<Rightarrow> client \<Rightarrow> str \<Rightarrow> exn + py_file \<times> client" where
  "Client_get net self filename =
     then_do (net (c_host self) (c_port self)) (\<lambda>c0.
     then_do (send c0 (Str (ascii ''GET '' @ filename))) (\<lambda>c1.
     (let (reply, c2) = receive c1 in
      then_do (decode reply) (\<lambda>status.
        if strip status = StatusCode_value StatusCode_OK then
          (let (meta, c3) = receive c2 in
           then_do (decode meta) (\<lambda>line.
             (case split (strip line) of
                [name, len] \<Rightarrow>
                  (let (content, c4) = receive c3 in
                   Inr (\<lparr>f_name = name, f_content = content\<rparr>,
                        self\<lparr>c_files := c_files self @ [name]\<rparr>))
              | _ \<Rightarrow> Inl ValueError)))
        else if strip status = StatusCode_value StatusCode_NOT_FOUND then Inl NotFoundError
        else
          (let (more, c3) = receive c2 in
           then_do (decode more) (\<lambda>error. Inl RuntimeError))))))"

text \<open>
  The observers of the registry are managers (\<open>Manager\<close> is the one class of the
  repository with the three callbacks of \<open>Observer\<close>). A manager keeps its handles in a
  \<open>dict\<close> from bucket id to handle, here an association list in insertion order, and
  writes a log line in each callback.
\<close>

datatype event = Registered client | Unregistered str | Updated str spec

datatype log_entry = Info_event event | Error_run exn | Error_handler str exn
  | Info_response str | Error_send str exn

record manager =
  m_buckets :: "(str \<times> client) list"
  m_log :: "log_entry list"

definition registered :: "manager \<Rightarrow> client \<Rightarrow> exn + manager" where
  "registered self b =
     Inr (self\<lparr>m_log := m_log self @ [Info_event (Registered b)],
               m_buckets := AList.update (c_id b) b (m_buckets self)\<rparr>)"

definition unregistered :: "manager \<Rightarrow> str \<Rightarrow> exn + manager" where
  "unregistered self ident =
     Inr (self\<lparr>m_buckets := AList.delete ident (m_buckets self),
               m_log := m_log self @ [Info_event (Unregistered ident)]\<rparr>)"

definition updated :: "manager \<Rightarrow> str \<Rightarrow> spec \<Rightarrow> exn + manager" where
  "updated self ident sp =
     (case map_of (m_buckets self) ident of
        None \<Rightarrow> Inl KeyError
      | Some b \<Rightarrow>
          Inr (self\<lparr>m_log := m_log self @ [Info_event (Updated ident sp)],
                    m_buckets := AList.update ident (b\<lparr>c_spec := Some sp\<rparr>) (m_buckets self)\<rparr>))"

definition deliver :: "manager \<Rightarrow> event \<Rightarrow> exn + manager" where
  "deliver observer ev =
     (case ev of
        Registered b \<Rightarrow> registered observer b
      | Unregistered ident \<Rightarrow> unregistered observer ident
      | Updated ident sp \<Rightarrow> updated observer ident sp)"

text \<open>
  \<open>Subject\<close>: the subscribed observers in subscription order, and the history of the
  callbacks made, each with the position of the observer it went to.
\<close>

record subject =
  s_observers :: "manager list"
  s_calls :: "(nat \<times> event) list"

definition Subject_init :: subject where
  "Subject_init = \<lparr>s_observers = [], s_calls = []\<rparr>"

definition subscribe :: "subject \<Rightarrow> manager \<Rightarrow> subject" where
  "subscribe self observer = self\<lparr>s_observers := s_observers self @ [observer]\<rparr>"

text \<open>
  The loop \<open>for observer in self._observers\<close>: the argument of the callback is built
  anew for every observer (its \<open>int\<close> conversions may raise), then the callback runs.
\<close>

fun for_observers ::
  "(exn + event) \<Rightarrow> nat \<Rightarrow> manager list \<Rightarrow> exn + manager list \<times> (nat \<times> event) list" where
  "for_observers arg i [] = Inr ([], [])"
| "for_observers arg i (observer # rest) =
     then_do arg (\<lambda>ev.
     then_do (deliver observer ev) (\<lambda>observer1.
     then_do (for_observers arg (Suc i) rest) (\<lambda>(rest1, calls).
     Inr (observer1 # rest1, (i, ev) # calls))))"

definition make_spec :: "str \<Rightarrow> str \<Rightarrow> str \<Rightarrow> exn + spec" where
  "make_spec fc av us =
     then_do (py_int fc) (\<lambda>n1.
     then_do (py_int av) (\<lambda>n2.
     then_do (py_int us) (\<lambda>n3.
     Inr \<lparr>files_count = n1, available_space = n2, used_space = n3\<rparr>)))"

definition register_event :: "str list \<Rightarrow> exn + (exn + event)" where
  "register_event args =
     (case args of
        [ident, host, port, region, path, fc, av, us] \<Rightarrow>
          Inr (then_do (py_int port) (\<lambda>p.
               then_do (make_spec fc av us) (\<lambda>sp.
               Inr (Registered ((Client_init host p path ident region)\<lparr>c_spec := Some sp\<rparr>)))))
      | _ \<Rightarrow> Inl ValueError)"

definition unregister_event :: "str list \<Rightarrow> exn + (exn + event)" where
  "unregister_event args =
     (case args of [] \<Rightarrow> Inl IndexError | ident # _ \<Rightarrow> Inr (Inr (Unregistered ident)))"

definition update_event :: "str list \<Rightarrow> exn + (exn + event)" where
  "update_event args =
     (case args of
        [ident, fc, av, us] \<Rightarrow>
          Inr (then_do (make_spec fc av us) (\<lambda>sp. Inr (Updated ident sp)))
      | _ \<Rightarrow> Inl ValueError)"

text \<open>
  One turn of the loop of \<open>Subject.listen\<close>, and the loop over the connections in the
  order they arrive; as for \<open>run\<close>, an exception leaves the loop.
\<close>

definition notify :: "subject \<Rightarrow> exn + (exn + event) \<Rightarrow> exn + subject" where
  "notify self unpacked =
     then_do unpacked (\<lambda>arg.
     then_do (for_observers arg 0 (s_observers self)) (\<lambda>(observers, calls).
     Inr (self\<lparr>s_observers := observers, s_calls := s_calls self @ calls\<rparr>)))"

definition listen_one :: "subject \<Rightarrow> connection \<Rightarrow> exn + connection \<times> subject" where
  "listen_one self conn =
     (let (line, bucket_server) = receive conn in
      then_do (decode line) (\<lambda>text.
        (case split (strip text) of
           [] \<Rightarrow> Inl ValueError
         | command # args \<Rightarrow>
             then_do
               (if command = ascii ''register'' then notify self (register_event args)
                else if command = ascii ''unregister'' then notify self (unregister_event args)
                else if command = ascii ''update'' then notify self (update_event args)
                else Inr self)
               (\<lambda>self1. Inr (close bucket_server, self1)))))"

fun listen :: "subject \<Rightarrow> connection list \<Rightarrow> connection list \<times> (exn + subject)" where
  "listen self [] = ([], Inr self)"
| "listen self (conn # waiting) =
     (case listen_one self conn of
        Inl e \<Rightarrow> ([], Inl e)
      | Inr (bucket_server, self1) \<Rightarrow>
          (let (served, outcome) = listen self1 waiting in (bucket_server # served, outcome)))"

section \<open>The manager: placement, handlers and dispatch (c9/manager)\<close>

datatype status = Status_OK | Status_ERROR | Status_NOT_FOUND

datatype content_type = NO_CONTENT | TEXT_PLAIN | BYTES

definition Status_value :: "status \<Rightarrow> str" where
  "Status_value s =
     (case s of
        Status_OK \<Rightarrow> ascii ''OK''
      | Status_ERROR \<Rightarrow> ascii ''ERROR''
      | Status_NOT_FOUND \<Rightarrow> ascii ''NOT_FOUND'')"

definition ContentType_value :: "content_type \<Rightarrow> str" where
  "ContentType_value t =
     (case t of
        NO_CONTENT \<Rightarrow> ascii ''no-content''
      | TEXT_PLAIN \<Rightarrow> ascii ''text/plain''
      | BYTES \<Rightarrow> ascii ''application/bytes'')"

text \<open>
  \<open>DISTANCE_MATRIX\<close>: a \<open>dict\<close> of \<open>dict\<close>s, with no entry from a region to itself.
  \<open>distance a b\<close> is \<open>DISTANCE_MATRIX[a][b]\<close>, a \<open>KeyError\<close> where a key is missing.
\<close>

definition DISTANCE_MATRIX :: "(str \<times> (str \<times> int) list) list" where
  "DISTANCE_MATRIX =
     [(ascii ''us-east'',
        [(ascii ''us-west'', 2500), (ascii ''eu'', 4000), (ascii ''asia'', 7000),
         (ascii ''latin-america'', 1500), (ascii ''africa'', 6000),
         (ascii ''australia'', 9000)]),
      (ascii ''us-west'',
        [(ascii ''us-east'', 2500), (ascii ''eu'', 3500), (ascii ''asia'', 6500),
         (ascii ''latin-america'', 2000), (ascii ''africa'', 5500),
         (ascii ''australia'', 8500)]),
      (ascii ''eu'',
        [(ascii ''us-east'', 4000), (ascii ''us-west'', 3500), (ascii ''asia'', 6000),
         (ascii ''latin-america'', 5000), (ascii ''africa'', 2000),
         (ascii ''australia'', 8000)]),
      (ascii ''asia'',
        [(ascii ''us-east'', 7000), (ascii ''us-west'', 6500), (ascii ''eu'', 6000),
         (ascii ''latin-america'', 11000), (ascii ''africa'', 5000),
         (ascii ''australia'', 3000)]),
      (ascii ''latin-america'',
        [(ascii ''us-east'', 1500), (ascii ''us-west'', 2000), (ascii ''eu'', 5000),
         (ascii ''asia'', 11000), (ascii ''africa'', 4000), (ascii ''australia'', 12000)]),
      (ascii ''africa'',
        [(ascii ''us-east'', 6000), (ascii ''us-west'', 5500), (ascii ''eu'', 2000),
         (ascii ''asia'', 5000), (ascii ''latin-america'', 4000),
         (ascii ''australia'', 7000)]),
      (ascii ''australia'',
        [(ascii ''us-east'', 9000), (ascii ''us-west'', 8500), (ascii ''eu'', 8000),
         (ascii ''asia'', 3000), (ascii ''latin-america'', 12000),
         (ascii ''africa'', 7000)])]"

definition distance :: "str \<Rightarrow> str \<Rightarrow> exn + int" where
  "distance a b =
     (case map_of DISTANCE_MATRIX a of
        None \<Rightarrow> Inl KeyError
      | Some row \<Rightarrow> (case map_of row b of None \<Rightarrow> Inl KeyError | Some d \<Rightarrow> Inr d))"

text \<open>The regions of \<open>Region\<close> (c9/buckets/api.py), which are the keys of the table.\<close>

definition regions :: "str list" where
  "regions = map ascii [''us-east'', ''us-west'', ''eu'', ''asia'', ''latin-america'',
     ''africa'', ''australia'']"

record request_context =
  ctx_region :: str
  ctx_buckets :: "client list"
  ctx_connection :: connection

record response =
  r_status :: status
  r_content_type :: content_type
  r_data :: "bytes option"

text \<open>\<open>Response.send\<close>, on the connection of the response's context.\<close>

definition Response_send :: "connection \<Rightarrow> response \<Rightarrow> exn + connection" where
  "Response_send conn r =
     then_do (send_chunk conn (Status_value (r_status r))) (\<lambda>c1.
     then_do (send_chunk c1 (ContentType_value (r_content_type r))) (\<lambda>c2.
     (case r_data r of
        None \<Rightarrow> Inr c2
      | Some d \<Rightarrow> if d = [] then Inr c2 else send c2 (Bytes d))))"

definition get_bucket_available_space :: "client \<Rightarrow> int" where
  "get_bucket_available_space b =
     (case c_spec b of None \<Rightarrow> 0 | Some sp \<Rightarrow> available_space sp)"

text \<open>
  \<open>UploadHandler.select_bucket\<close>. The keyword argument \<open>size\<close> may be missing. \<open>sorted\<close>
  computes the key of every candidate, in order, before it compares any, and is stable:
  \<open>keyed\<close> pairs each candidate with its key or raises the first \<open>KeyError\<close>, and
  \<open>sort_key\<close> is the stable insertion sort.
\<close>

fun keyed :: "str \<Rightarrow> client list \<Rightarrow> exn + (int \<times> client) list" where
  "keyed region [] = Inr []"
| "keyed region (b # bs) =
     then_do (distance region (c_region b)) (\<lambda>d.
     then_do (keyed region bs) (\<lambda>rest. Inr ((d, b) # rest)))"

definition select_bucket :: "str \<Rightarrow> client list \<Rightarrow> nat option \<Rightarrow> exn + client option" where
  "select_bucket region buckets size_kw =
     (case size_kw of
        None \<Rightarrow> Inl ValueError
      | Some sz \<Rightarrow>
          (let available_buckets =
                 filter (\<lambda>b. get_bucket_available_space b \<ge> int sz) buckets
           in if available_buckets = [] then Inr None
              else then_do (keyed region available_buckets) (\<lambda>ks.
                     Inr (Some (snd (hd (sort_key fst ks)))))))"

text \<open>
  The loop \<open>for bucket in [main_bucket, backup_bucket]\<close> of the upload: the handles
  \<open>put\<close> was called on, in order, each with what the call wrote to its bucket and
  what the call gave; an exception ends the loop, so a call that raised is the last.
\<close>

fun put_each ::
  "network \<Rightarrow> py_file \<Rightarrow> client option list \<Rightarrow>
     (client \<times> bytes list \<times> (exn + client)) list" where
  "put_each net f [] = []"
| "put_each net f (None # rest) = put_each net f rest"
| "put_each net f (Some b # rest) =
     (case Client_put_wire net b f of
        (sent, Inl e) \<Rightarrow> [(b, sent, Inl e)]
      | (sent, Inr b1) \<Rightarrow> (b, sent, Inr b1) # put_each net f rest)"

definition raised :: "(client \<times> (exn + client)) list \<Rightarrow> exn option" where
  "raised attempts =
     (if attempts = [] then None
      else (case snd (last attempts) of Inl e \<Rightarrow> Some e | Inr b \<Rightarrow> None))"

text \<open>
  What a handler leaves behind: its response and error, the client's connection, the
  calls it made on handles with their results (\<open>o_attempts\<close>) and, for the \<open>put\<close>
  calls of an upload, what each wrote to its bucket (\<open>o_puts\<close>).
\<close>

record outcome =
  o_response :: response
  o_error :: "exn option"
  o_connection :: connection
  o_attempts :: "(client \<times> (exn + client)) list"
  o_puts :: "(client \<times> bytes list) list"

definition outcome_of :: "status \<Rightarrow> content_type \<Rightarrow> bytes option \<Rightarrow> exn option \<Rightarrow> connection \<Rightarrow>
    (client \<times> (exn + client)) list \<Rightarrow> outcome" where
  "outcome_of st ct d e conn attempts =
     \<lparr>o_response = \<lparr>r_status = st, r_content_type = ct, r_data = d\<rparr>,
      o_error = e, o_connection = conn, o_attempts = attempts, o_puts = []\<rparr>"

definition UploadHandler_handle :: "request_context \<Rightarrow> network \<Rightarrow> str \<Rightarrow> str \<Rightarrow> outcome" where
  "UploadHandler_handle ctx net unused filename =
     (let (content, conn1) = receive (ctx_connection ctx) in
      (case select_bucket (ctx_region ctx) (ctx_buckets ctx) (Some (length content)) of
         Inl e \<Rightarrow> outcome_of Status_ERROR NO_CONTENT None (Some e) conn1 []
       | Inr None \<Rightarrow> outcome_of Status_ERROR NO_CONTENT None (Some RuntimeError) conn1 []
       | Inr (Some main_bucket) \<Rightarrow>
           (case select_bucket (ctx_region ctx)
                   (filter (\<lambda>b. c_id b \<noteq> c_id main_bucket) (ctx_buckets ctx))
                   (Some (length content)) of
              Inl e \<Rightarrow> outcome_of Status_ERROR NO_CONTENT None (Some e) conn1 []
            | Inr backup_bucket \<Rightarrow>
                (let calls = put_each net \<lparr>f_name = filename, f_content = content\<rparr>
                               [Some main_bucket, backup_bucket];
                     attempts = map (\<lambda>(b, sent, r). (b, r)) calls;
                     puts = map (\<lambda>(b, sent, r). (b, sent)) calls
                 in (case raised attempts of
                       Some e \<Rightarrow>
                         (outcome_of Status_ERROR NO_CONTENT None (Some e) conn1 attempts)
                           \<lparr>o_puts := puts\<rparr>
                     | None \<Rightarrow>
                         (outcome_of Status_OK NO_CONTENT None None conn1 attempts)
                           \<lparr>o_puts := puts\<rparr>)))))"

text \<open>\<open>DownloadHandler\<close>: the first handle whose tracked file names hold the name.\<close>

definition select_bucket_download :: "client list \<Rightarrow> str option \<Rightarrow> exn + client option" where
  "select_bucket_download buckets filename_kw =
     (case filename_kw of
        None \<Rightarrow> Inl ValueError
      | Some filename \<Rightarrow> Inr (find (\<lambda>b. filename \<in> set (c_files b)) buckets))"

definition DownloadHandler_handle :: "request_context \<Rightarrow> network \<Rightarrow> str \<Rightarrow> outcome" where
  "DownloadHandler_handle ctx net filename =
     (let conn = ctx_connection ctx;
          unknown = outcome_of Status_ERROR TEXT_PLAIN (Some ''Unknown error'')
      in (case select_bucket_download (ctx_buckets ctx) (Some filename) of
            Inl e \<Rightarrow> unknown (Some e) conn []
          | Inr None \<Rightarrow> outcome_of Status_NOT_FOUND NO_CONTENT None None conn []
          | Inr (Some b) \<Rightarrow>
              (case Client_get net b filename of
                 Inl e \<Rightarrow>
                   if e = NotFoundError
                   then outcome_of Status_NOT_FOUND NO_CONTENT None None conn [(b, Inl e)]
                   else unknown (Some e) conn [(b, Inl e)]
               | Inr (f, b1) \<Rightarrow>
                   outcome_of Status_OK BYTES (Some (f_content f)) None conn [(b, Inr b1)])))"

text \<open>
  \<open>HandlerRegistry\<close>: the metaclass enters each handler class under its \<open>name\<close>.
  \<open>parse_parameters\<close> separates the positional parameters from the \<open>key=value\<close> ones
  (a parameter with two \<open>=\<close> fails to unpack). \<open>bind_params\<close> is the call
  \<open>_handle(*args, **kwargs)\<close> for a method with the given parameter names: a missing,
  repeated or unexpected argument is a \<open>TypeError\<close>.
\<close>

datatype handler_class = UploadHandler | DownloadHandler

definition handler_name :: "handler_class \<Rightarrow> str" where
  "handler_name h = (case h of UploadHandler \<Rightarrow> ascii ''upload'' | DownloadHandler \<Rightarrow> ascii ''download'')"

definition HandlerRegistry_get :: "str \<Rightarrow> handler_class option" where
  "HandlerRegistry_get command =
     map_of [(ascii ''upload'', UploadHandler), (ascii ''download'', DownloadHandler)] command"

fun parse_parameters :: "str list \<Rightarrow> exn + str list \<times> (str \<times> str) list" where
  "parse_parameters [] = Inr ([], [])"
| "parse_parameters (parameter # rest) =
     (if 61 \<in> set parameter then
        (case split_on 61 parameter of
           [key, val] \<Rightarrow>
             then_do (parse_parameters rest) (\<lambda>(args, kwargs).
               Inr (args, if key \<in> fst ` set kwargs then kwargs else (key, val) # kwargs))
         | _ \<Rightarrow> Inl ValueError)
      else then_do (parse_parameters rest) (\<lambda>(args, kwargs). Inr (parameter # args, kwargs)))"

fun bind_params :: "str list \<Rightarrow> str list \<Rightarrow> (str \<times> str) list \<Rightarrow> exn + str list" where
  "bind_params [] [] kwargs = (if kwargs = [] then Inr [] else Inl TypeError)"
| "bind_params [] (a # args) kwargs = Inl TypeError"
| "bind_params (n # names) (a # args) kwargs =
     (if n \<in> fst ` set kwargs then Inl TypeError
      else then_do (bind_params names args kwargs) (\<lambda>bound. Inr (a # bound)))"
| "bind_params (n # names) [] kwargs =
     (case map_of kwargs n of
        None \<Rightarrow> Inl TypeError
      | Some v \<Rightarrow>
          then_do (bind_params names [] (AList.delete n kwargs)) (\<lambda>bound. Inr (v # bound)))"

definition call_handler ::
  "handler_class \<Rightarrow> request_context \<Rightarrow> network \<Rightarrow> str list \<Rightarrow> (str \<times> str) list \<Rightarrow> exn + outcome" where
  "call_handler h ctx net args kwargs =
     (case h of
        UploadHandler \<Rightarrow>
          then_do (bind_params [ascii ''_'', ascii ''filename''] args kwargs) (\<lambda>bound.
            Inr (UploadHandler_handle ctx net (bound ! 0) (bound ! 1)))
      | DownloadHandler \<Rightarrow>
          then_do (bind_params [ascii ''filename''] args kwargs) (\<lambda>bound.
            Inr (DownloadHandler_handle ctx net (bound ! 0))))"

definition REGION :: str where
  "REGION = ascii ''latin-america''"

text \<open>
  The handles of the context are the objects of the manager's \<open>dict\<close>: a \<open>put\<close> or \<open>get\<close>
  that succeeded has appended to the handle's file names there too.
\<close>

fun write_back :: "(client \<times> (exn + client)) list \<Rightarrow> (str \<times> client) list \<Rightarrow> (str \<times> client) list" where
  "write_back [] d = d"
| "write_back ((b, Inl e) # rest) d = write_back rest d"
| "write_back ((b, Inr b1) # rest) d = write_back rest (AList.update (c_id b1) b1 d)"

text \<open>
  \<open>thread_wrapper\<close>: the body of the thread started for a request. An exception of the
  call itself (a \<open>TypeError\<close> of the argument binding) ends the thread before anything
  is sent or closed. The thread runs to its end before the next connection is taken.
\<close>

definition wrapper ::
  "manager \<Rightarrow> handler_class \<Rightarrow> request_context \<Rightarrow> network \<Rightarrow> str list \<Rightarrow> (str \<times> str) list \<Rightarrow>
     manager \<times> connection" where
  "wrapper self h ctx net args kwargs =
     (case call_handler h ctx net args kwargs of
        Inl e \<Rightarrow> (self, ctx_connection ctx)
      | Inr out \<Rightarrow>
          (let self1 = self\<lparr>m_buckets := write_back (o_attempts out) (m_buckets self)\<rparr>;
               self2 = (case o_error out of
                          None \<Rightarrow> self1
                        | Some e \<Rightarrow>
                            self1\<lparr>m_log := m_log self1 @ [Error_handler (handler_name h) e]\<rparr>)
           in (case Response_send (o_connection out) (o_response out) of
                 Inl e \<Rightarrow>
                   (self2\<lparr>m_log := m_log self2 @ [Error_send (handler_name h) e]\<rparr>,
                    close (o_connection out))
               | Inr sent \<Rightarrow>
                   (self2\<lparr>m_log := m_log self2 @ [Info_response (handler_name h)]\<rparr>,
                    close sent))))"

text \<open>
  One turn of the loop of \<open>Manager.run\<close>, and the loop. Nothing raised inside the \<open>try\<close>
  leaves it, so the loop takes every connection.
\<close>

definition dispatch ::
  "connection \<Rightarrow> exn + handler_class \<times> str list \<times> (str \<times> str) list \<times> connection" where
  "dispatch conn =
     (let (line, server) = receive conn in
      then_do (decode line) (\<lambda>text.
        (case split (strip text) of
           [] \<Rightarrow> Inl ValueError
         | command # parameters \<Rightarrow>
             (case HandlerRegistry_get command of
                None \<Rightarrow> Inl RuntimeError
              | Some h \<Rightarrow>
                  then_do (parse_parameters parameters) (\<lambda>(args, kwargs).
                    Inr (h, args, kwargs, server))))))"

definition Manager_turn :: "network \<Rightarrow> manager \<Rightarrow> connection \<Rightarrow> manager \<times> connection" where
  "Manager_turn net self conn =
     (case dispatch conn of
        Inl e \<Rightarrow> (self\<lparr>m_log := m_log self @ [Error_run e]\<rparr>, snd (receive conn))
      | Inr (h, args, kwargs, server) \<Rightarrow>
          wrapper self h
            \<lparr>ctx_region = REGION, ctx_buckets = map snd (m_buckets self),
             ctx_connection = server\<rparr>
            net args kwargs)"

fun Manager_run :: "network \<Rightarrow> manager \<Rightarrow> connection list \<Rightarrow> manager \<times> connection list" where
  "Manager_run net self [] = (self, [])"
| "Manager_run net self (conn # waiting) =
     (let (self1, server) = Manager_turn net self conn;
          (self2, served) = Manager_run net self1 waiting
      in (self2, server # served))"

section \<open>Concrete buckets and connections\<close>

text \<open>
  The values the closed theorems below are stated at: a new bucket and one with three
  bytes left; a registry with two managers that know no bucket yet, and a \<open>register\<close>
  line as a bucket sends it; a network that refuses every connection and one where
  every bucket answers \<open>OK\<close>; three handles with ample space in \<open>asia\<close>, \<open>eu\<close> and
  \<open>us-east\<close> for a manager in \<open>latin-america\<close>, with a 10-byte and a 2000-byte upload.
\<close>

definition bucket0 :: bucket where
  "bucket0 = Bucket_init (ascii ''/srv/.data'') (ascii ''localhost'') 3001 (ascii ''eu'')
     (ascii ''b1'') [(ascii ''localhost'', 3000)]"

definition bucket_full :: bucket where
  "bucket_full = bucket0\<lparr>b_spec := \<lparr>files_count = 0, available_space = 3, used_space = 0\<rparr>\<rparr>"

definition manager0 :: manager where
  "manager0 = \<lparr>m_buckets = [], m_log = []\<rparr>"

definition subject1 :: subject where
  "subject1 = subscribe (subscribe Subject_init manager0) manager0"

definition register_line :: bytes where
  "register_line = ''register b1 localhost 3001 eu /srv/.data/b1 0 250000000 0''"

definition handle0 :: client where
  "handle0 = \<lparr>c_host = ascii ''localhost'', c_port = 3001, c_base_path = ascii ''/srv/.data/b1'',
     c_id = ascii ''b1'', c_region = ascii ''eu'', c_files = [],
     c_spec = Some \<lparr>files_count = 0, available_space = 250000000, used_space = 0\<rparr>\<rparr>"

definition net_refuse :: network where
  "net_refuse host port = Inl ConnectionRefusedError"

definition net_ok :: network where
  "net_ok host port = Inr (fresh [''OK''])"

definition handle_at :: "string \<Rightarrow> string \<Rightarrow> int \<Rightarrow> client" where
  "handle_at ident region space =
     \<lparr>c_host = ascii ''localhost'', c_port = 3001, c_base_path = ascii ''/srv/.data'',
      c_id = ascii ident, c_region = ascii region, c_files = [],
      c_spec = Some \<lparr>files_count = 0, available_space = space, used_space = 0\<rparr>\<rparr>"

definition buckets3 :: "client list" where
  "buckets3 = [handle_at ''b-asia'' ''asia'' 250000000, handle_at ''b-eu'' ''eu'' 250000000,
               handle_at ''b-us-east'' ''us-east'' 250000000]"

definition ctx3 :: request_context where
  "ctx3 = \<lparr>ctx_region = REGION, ctx_buckets = buckets3,
            ctx_connection = fresh [''0123456789'']\<rparr>"

definition conn_big :: connection where
  "conn_big = fresh [replicate 2000 (CHR ''x'')]"

definition ctx_big :: request_context where
  "ctx_big = \<lparr>ctx_region = REGION, ctx_buckets = buckets3, ctx_connection = conn_big\<rparr>"

section \<open>Properties of the wire\<close>

lemma then_do_Inr [simp]: "then_do (Inr x) f = f x"
  by (simp add: then_do_def)

lemma then_do_Inl [simp]: "then_do (Inl e) f = Inl e"
  by (simp add: then_do_def)

lemma encode_append:
  "encode (s @ t) = then_do (encode s) (\<lambda>a. then_do (encode t) (\<lambda>b. Inr (a @ b)))"
proof (induction s)
  case Nil
  show ?case by (cases "encode t") simp_all
next
  case (Cons cp s)
  show ?case
  proof (cases "encode_char cp")
    case (Inl e)
    then show ?thesis by simp
  next
    case (Inr bs)
    show ?thesis
    proof (cases "encode s")
      case (Inl e)
      with Inr Cons show ?thesis by simp
    next
      case s_ok: (Inr a)
      show ?thesis
      proof (cases "encode t")
        case (Inl e)
        with Inr s_ok Cons show ?thesis by simp
      next
        case (Inr b)
        with \<open>encode_char cp = Inr bs\<close> s_ok Cons show ?thesis by simp
      qed
    qed
  qed
qed

lemma encode_spaces: "encode (replicate n 32) = Inr (replicate n (CHR '' ''))"
proof (induction n)
  case 0
  show ?case by simp
next
  case (Suc n)
  have "encode_char 32 = Inr [CHR '' '']"
    by code_simp
  with Suc show ?case by simp
qed

lemma encode_ascii_char: "cp < 128 \<Longrightarrow> encode_char cp = Inr [char_of cp]"
  by (simp add: encode_char_def)

lemma encode_ascii: "list_all (\<lambda>cp. cp < 128) s \<Longrightarrow> encode s = Inr (map char_of s)"
  by (induction s) (simp_all add: encode_ascii_char)

text \<open>
  What \<open>send_chunk\<close> puts on the wire for a text of at most \<open>CHUNK_SIZE\<close> code points:
  the encoded text followed by one space for each code point short of \<open>CHUNK_SIZE\<close>.
\<close>

lemma send_chunk_frame:
  assumes "length content \<le> CHUNK_SIZE" and "encode content = Inr b"
  shows "send_chunk c content
           = Inr (sendall c (b @ replicate (CHUNK_SIZE - length content) (CHR '' '')))"
  using assms by (simp add: send_chunk_def ljust_def encode_append encode_spaces send_def)

lemma send_chunk_ascii:
  assumes "list_all (\<lambda>cp. cp < 128) content"
  shows "send_chunk c content =
           (if length content > CHUNK_SIZE then Inl ValueError
            else Inr (sendall c (map char_of content
                                  @ replicate (CHUNK_SIZE - length content) (CHR '' ''))))"
  using assms by (simp add: send_chunk_frame encode_ascii) (simp add: send_chunk_def)

text \<open>
  C9. \<open>send_chunk\<close> compares the number of code points of the text with \<open>CHUNK_SIZE\<close>
  and pads to \<open>CHUNK_SIZE\<close> code points before encoding. The one-character text
  \<open>U+00E9\<close> (two bytes in UTF-8) is accepted and goes out as a frame of 1025 bytes, and a
  text of 600 such characters, 1200 bytes long, raises nothing and goes out as a frame of
  1624 bytes: neither is one 1024-byte frame, and the second exceeds 1024 bytes without a
  length error.
\<close>

theorem send_chunk_non_ascii_frame:
  "send_chunk (fresh []) [233]
     = Inr (sendall (fresh []) ([CHR 0xC3, CHR 0xA9] @ replicate 1023 (CHR '' '')))
   \<and> length ([CHR 0xC3, CHR 0xA9] @ replicate 1023 (CHR '' '')) = 1025
   \<and> map length (outbox (projr (send_chunk (fresh []) (replicate 600 233)))) = [1624]
   \<and> isl (send_chunk (fresh []) (replicate 600 233)) = False"
proof -
  have e1: "encode [233] = Inr [CHR 0xC3, CHR 0xA9]"
    by code_simp
  have c: "encode_char 233 = Inr [CHR 0xC3, CHR 0xA9]"
    by code_simp
  have en: "encode (replicate n 233) = Inr (concat (replicate n [CHR 0xC3, CHR 0xA9]))" for n
    by (induction n) (simp_all add: c)
  have l: "length (concat (replicate n [CHR 0xC3, CHR 0xA9])) = 2 * n" for n
    by (induction n) simp_all
  have s1: "send_chunk (fresh []) [233]
              = Inr (sendall (fresh []) ([CHR 0xC3, CHR 0xA9] @ replicate 1023 (CHR '' '')))"
    using send_chunk_frame [of "[233]" "[CHR 0xC3, CHR 0xA9]" "fresh []"] e1
    by (simp add: CHUNK_SIZE_def)
  have s2: "send_chunk (fresh []) (replicate 600 233)
              = Inr (sendall (fresh [])
                  (concat (replicate 600 [CHR 0xC3, CHR 0xA9]) @ replicate 424 (CHR '' '')))"
    using send_chunk_frame [of "replicate 600 233" _ "fresh []"] en [of 600]
    by (simp add: CHUNK_SIZE_def)
  show ?thesis
    unfolding s1 s2 by (simp add: l sendall_def fresh_def)
qed

section \<open>Properties of the codec\<close>

lemma mod_offset:
  fixes n :: nat
  assumes "q * m \<le> n" and "n < q * m + m"
  shows "n mod m = n - q * m"
proof -
  define k where "k = n - q * m"
  with assms have n: "n = k + q * m" and k: "k < m" by simp_all
  show "n mod m = n - q * m" unfolding n using k by simp
qed

lemma base_digits:
  fixes q y m :: nat
  assumes "y < m"
  shows "(q * m + y) div m = q" and "(q * m + y) mod m = y"
  using assms by simp_all

lemma cont_value:
  assumes "cont c"
  shows "(of_char c :: nat) = 128 + low6 c" and "low6 c < 64"
proof -
  from assms have r: "128 \<le> (of_char c :: nat)" "(of_char c :: nat) \<le> 191"
    by (simp_all add: cont_def)
  then have "(of_char c :: nat) mod 64 = of_char c - 128"
    using mod_offset [of 2 64 "of_char c"] by simp
  with r show "(of_char c :: nat) = 128 + low6 c" and "low6 c < 64"
    by (simp_all add: low6_def)
qed

lemma char_of_value: "(of_char c :: nat) = n \<Longrightarrow> char_of n = c"
  by auto

lemma digits3:
  fixes a x1 x2 :: nat
  assumes "x1 < 64" and "x2 < 64"
  shows "(a * 4096 + x1 * 64 + x2) div 4096 = a"
    and "(a * 4096 + x1 * 64 + x2) div 64 mod 64 = x1"
    and "(a * 4096 + x1 * 64 + x2) mod 64 = x2"
proof -
  have e: "a * 4096 + x1 * 64 + x2 = (a * 64 + x1) * 64 + x2"
    by simp
  from assms have small: "x1 * 64 + x2 < 4096"
    by simp
  have "a * 4096 + x1 * 64 + x2 = a * 4096 + (x1 * 64 + x2)"
    by simp
  with base_digits(1) [OF small, of a] show "(a * 4096 + x1 * 64 + x2) div 4096 = a"
    by simp
  from base_digits(1) [OF assms(2), of "a * 64 + x1"] e
  have "(a * 4096 + x1 * 64 + x2) div 64 = a * 64 + x1"
    by simp
  with base_digits(2) [OF assms(1), of a]
  show "(a * 4096 + x1 * 64 + x2) div 64 mod 64 = x1"
    by simp
  show "(a * 4096 + x1 * 64 + x2) mod 64 = x2"
    unfolding e by (rule base_digits(2) [OF assms(2)])
qed

lemma digits4:
  fixes a x1 x2 x3 :: nat
  assumes "x1 < 64" and "x2 < 64" and "x3 < 64"
  shows "(a * 262144 + x1 * 4096 + x2 * 64 + x3) div 262144 = a"
    and "(a * 262144 + x1 * 4096 + x2 * 64 + x3) div 4096 mod 64 = x1"
    and "(a * 262144 + x1 * 4096 + x2 * 64 + x3) div 64 mod 64 = x2"
    and "(a * 262144 + x1 * 4096 + x2 * 64 + x3) mod 64 = x3"
proof -
  let ?n = "a * 262144 + x1 * 4096 + x2 * 64 + x3"
  have e1: "?n = ((a * 64 + x1) * 64 + x2) * 64 + x3"
    by simp
  have e2: "?n = (a * 64 + x1) * 4096 + (x2 * 64 + x3)"
    by simp
  have e3: "?n = a * 262144 + (x1 * 4096 + x2 * 64 + x3)"
    by simp
  from assms have s2: "x2 * 64 + x3 < 4096" and s3: "x1 * 4096 + x2 * 64 + x3 < 262144"
    by simp_all
  from base_digits(1) [OF s3, of a] e3 show "?n div 262144 = a"
    by simp
  from base_digits(1) [OF s2, of "a * 64 + x1"] e2 have "?n div 4096 = a * 64 + x1"
    by simp
  with base_digits(2) [OF assms(1), of a] show "?n div 4096 mod 64 = x1"
    by simp
  from base_digits(1) [OF assms(3), of "(a * 64 + x1) * 64 + x2"] e1
  have "?n div 64 = (a * 64 + x1) * 64 + x2"
    by simp
  with base_digits(2) [OF assms(2), of "a * 64 + x1"] show "?n div 64 mod 64 = x2"
    by simp
  show "?n mod 64 = x3"
    unfolding e1 by (rule base_digits(2) [OF assms(3)])
qed


text \<open>
  Decoding is undone by encoding: a text that \<open>decode\<close> returns encodes to the bytes
  it was decoded from. So does every field of a command line read off the wire.
\<close>

lemma decode2_encode:
  assumes dec: "decode2 (of_char c) cs = Inr (cp, r)"
    and lo: "0xC2 \<le> (of_char c :: nat)" and hi: "(of_char c :: nat) \<le> 0xDF"
  shows "encode_char cp = Inr (take (length (c # cs) - length r) (c # cs))
         \<and> c # cs = take (length (c # cs) - length r) (c # cs) @ r"
proof -
  from dec obtain c1 where cs: "cs = c1 # r" and c1: "cont c1"
    and cp: "cp = ((of_char c :: nat) mod 32) * 64 + low6 c1"
    by (auto simp: decode2_def split: list.splits if_splits)
  define a where "a = (of_char c :: nat) - 192"
  from lo hi have amod: "(of_char c :: nat) mod 32 = a"
    using mod_offset [of 6 32 "of_char c"] by (simp add: a_def)
  from lo hi have b: "(of_char c :: nat) = 192 + a" and a: "2 \<le> a" "a < 32"
    by (simp_all add: a_def)
  note v1 = cont_value [OF c1]
  have cp': "cp = a * 64 + low6 c1"
    by (simp add: cp amod)
  from a v1(2) have range: "128 \<le> cp" "cp < 2048"
    unfolding cp' by simp_all
  have dm: "cp div 64 = a" "cp mod 64 = low6 c1"
    unfolding cp' using base_digits [OF v1(2), of a] by simp_all
  have "encode_char cp = Inr [char_of (192 + cp div 64), char_of (128 + cp mod 64)]"
    using range by (simp add: encode_char_def)
  also have "\<dots> = Inr [c, c1]"
    unfolding dm using b v1(1) by (simp add: char_of_value)
  finally show ?thesis
    by (simp add: cs)
qed

lemma decode3_encode:
  assumes dec: "decode3 (of_char c) cs = Inr (cp, r)"
    and lo: "0xE0 \<le> (of_char c :: nat)" and hi: "(of_char c :: nat) \<le> 0xEF"
  shows "encode_char cp = Inr (take (length (c # cs) - length r) (c # cs))
         \<and> c # cs = take (length (c # cs) - length r) (c # cs) @ r"
proof -
  from dec obtain c1 c2 where cs: "cs = c1 # c2 # r" and c1: "cont c1" and c2: "cont c2"
    and e0: "(of_char c :: nat) = 224 \<Longrightarrow> 160 \<le> (of_char c1 :: nat)"
    and ed: "(of_char c :: nat) = 237 \<Longrightarrow> (of_char c1 :: nat) \<le> 159"
    and cp: "cp = ((of_char c :: nat) mod 16) * 4096 + low6 c1 * 64 + low6 c2"
    by (auto simp: decode3_def split: list.splits if_splits)
  define a where "a = (of_char c :: nat) - 224"
  from lo hi have amod: "(of_char c :: nat) mod 16 = a"
    using mod_offset [of 14 16 "of_char c"] by (simp add: a_def)
  from lo hi have b: "(of_char c :: nat) = 224 + a" and a: "a < 16"
    by (simp_all add: a_def)
  note v1 = cont_value [OF c1] and v2 = cont_value [OF c2]
  have cp': "cp = a * 4096 + low6 c1 * 64 + low6 c2"
    by (simp add: cp amod)
  have low: "2048 \<le> cp"
  proof (cases "a = 0")
    case True
    with b e0 v1(1) have "32 \<le> low6 c1" by simp
    then show ?thesis unfolding cp' by simp
  next
    case False
    then have "1 \<le> a" by simp
    then show ?thesis unfolding cp' by simp
  qed
  have high: "cp < 65536"
    unfolding cp' using a v1(2) v2(2) by simp
  have no_surrogate: "\<not> (55296 \<le> cp \<and> cp < 57344)"
  proof (cases "a = 13")
    case True
    with b ed v1(1) have "low6 c1 < 32" by simp
    with True v2(2) have "cp < 55296" unfolding cp' by simp
    then show ?thesis by simp
  next
    case False
    then consider "a \<le> 12" | "14 \<le> a" by linarith
    then show ?thesis
    proof cases
      case 1
      with v1(2) v2(2) have "cp < 55296" unfolding cp' by simp
      then show ?thesis by simp
    next
      case 2
      then have "57344 \<le> cp" unfolding cp' by simp
      then show ?thesis by simp
    qed
  qed
  have dm: "cp div 4096 = a" "cp div 64 mod 64 = low6 c1" "cp mod 64 = low6 c2"
    unfolding cp' using digits3 [OF v1(2) v2(2), of a] by simp_all
  have "encode_char cp = Inr [char_of (224 + cp div 4096), char_of (128 + cp div 64 mod 64),
                              char_of (128 + cp mod 64)]"
    using low high no_surrogate by (simp add: encode_char_def)
  also have "\<dots> = Inr [c, c1, c2]"
    unfolding dm using b v1(1) v2(1) by (simp add: char_of_value)
  finally show ?thesis
    by (simp add: cs)
qed

lemma decode4_encode:
  assumes dec: "decode4 (of_char c) cs = Inr (cp, r)"
    and lo: "0xF0 \<le> (of_char c :: nat)" and hi: "(of_char c :: nat) \<le> 0xF4"
  shows "encode_char cp = Inr (take (length (c # cs) - length r) (c # cs))
         \<and> c # cs = take (length (c # cs) - length r) (c # cs) @ r"
proof -
  from dec obtain c1 c2 c3 where cs: "cs = c1 # c2 # c3 # r"
    and c1: "cont c1" and c2: "cont c2" and c3: "cont c3"
    and f0: "(of_char c :: nat) = 240 \<Longrightarrow> 144 \<le> (of_char c1 :: nat)"
    and f4: "(of_char c :: nat) = 244 \<Longrightarrow> (of_char c1 :: nat) \<le> 143"
    and cp: "cp = ((of_char c :: nat) mod 8) * 262144 + low6 c1 * 4096 + low6 c2 * 64 + low6 c3"
    by (auto simp: decode4_def split: list.splits if_splits)
  define a where "a = (of_char c :: nat) - 240"
  from lo hi have amod: "(of_char c :: nat) mod 8 = a"
    using mod_offset [of 30 8 "of_char c"] by (simp add: a_def)
  from lo hi have b: "(of_char c :: nat) = 240 + a" and a: "a \<le> 4"
    by (simp_all add: a_def)
  note v1 = cont_value [OF c1] and v2 = cont_value [OF c2] and v3 = cont_value [OF c3]
  have cp': "cp = a * 262144 + low6 c1 * 4096 + low6 c2 * 64 + low6 c3"
    by (simp add: cp amod)
  have low: "65536 \<le> cp"
  proof (cases "a = 0")
    case True
    with b f0 v1(1) have "16 \<le> low6 c1" by simp
    then show ?thesis unfolding cp' by simp
  next
    case False
    then have "1 \<le> a" by simp
    then show ?thesis unfolding cp' by simp
  qed
  have high: "cp < 1114112"
  proof (cases "a = 4")
    case True
    with b f4 v1(1) have "low6 c1 < 16" by simp
    with True v2(2) v3(2) show ?thesis unfolding cp' by simp
  next
    case False
    with a have "a \<le> 3" by simp
    with v1(2) v2(2) v3(2) show ?thesis unfolding cp' by simp
  qed
  have dm: "cp div 262144 = a" "cp div 4096 mod 64 = low6 c1" "cp div 64 mod 64 = low6 c2"
    "cp mod 64 = low6 c3"
    unfolding cp' using digits4 [OF v1(2) v2(2) v3(2), of a] by simp_all
  have "encode_char cp = Inr [char_of (240 + cp div 262144), char_of (128 + cp div 4096 mod 64),
                              char_of (128 + cp div 64 mod 64), char_of (128 + cp mod 64)]"
    using low high by (simp add: encode_char_def)
  also have "\<dots> = Inr [c, c1, c2, c3]"
    unfolding dm using b v1(1) v2(1) v3(1) by (simp add: char_of_value)
  finally show ?thesis
    by (simp add: cs)
qed


lemma decode_char_encode:
  assumes "decode_char c cs = Inr (cp, r)"
  shows "\<exists>bs. encode_char cp = Inr bs \<and> c # cs = bs @ r"
proof -
  consider "(of_char c :: nat) < 0x80"
    | "0xC2 \<le> (of_char c :: nat)" "(of_char c :: nat) \<le> 0xDF"
    | "0xE0 \<le> (of_char c :: nat)" "(of_char c :: nat) \<le> 0xEF"
    | "0xF0 \<le> (of_char c :: nat)" "(of_char c :: nat) \<le> 0xF4"
    using assms by (auto simp: decode_char_def Let_def split: if_splits)
  then show ?thesis
  proof cases
    case 1
    with assms have "cp = of_char c" and "r = cs"
      by (simp_all add: decode_char_def)
    with 1 show ?thesis
      by (simp add: encode_char_def)
  next
    case 2
    with assms have "decode2 (of_char c) cs = Inr (cp, r)"
      by (simp add: decode_char_def)
    from decode2_encode [OF this 2] show ?thesis by blast
  next
    case 3
    with assms have "decode3 (of_char c) cs = Inr (cp, r)"
      by (simp add: decode_char_def)
    from decode3_encode [OF this 3] show ?thesis by blast
  next
    case 4
    with assms have "decode4 (of_char c) cs = Inr (cp, r)"
      by (simp add: decode_char_def)
    from decode4_encode [OF this 4] show ?thesis by blast
  qed
qed

lemma decode_encode: "decode bs = Inr s \<Longrightarrow> encode s = Inr bs"
proof (induction bs arbitrary: s rule: decode.induct)
  case 1
  then show ?case by (simp add: decode.simps)
next
  case (2 c cs)
  from "2.prems" obtain cp r t where
    ch: "decode_char c cs = Inr (cp, r)" and rest: "decode r = Inr t" and s: "s = cp # t"
    by (auto simp: decode.simps split: sum.splits)
  from decode_char_encode [OF ch] obtain b where
    b: "encode_char cp = Inr b" and cat: "c # cs = b @ r"
    by blast
  from "2.IH" [OF ch refl rest] have "encode t = Inr r" .
  with b cat s show ?case
    by simp
qed


lemma encode_ok_iff:
  "(\<exists>b. encode s = Inr b) \<longleftrightarrow> list_all (\<lambda>cp. \<exists>b. encode_char cp = Inr b) s"
proof (induction s)
  case Nil
  show ?case by simp
next
  case (Cons cp s)
  show ?case
  proof (cases "encode_char cp")
    case (Inl e)
    then show ?thesis by simp
  next
    case (Inr b)
    with Cons show ?thesis
      by (cases "encode s") simp_all
  qed
qed

lemma split_on_chars: "w \<in> set (split_on sep s) \<Longrightarrow> set w \<subseteq> set s"
proof (induction s arbitrary: w)
  case Nil
  then show ?case by simp
next
  case (Cons c s)
  show ?case
  proof (cases "c = sep")
    case True
    with Cons show ?thesis by auto
  next
    case False
    show ?thesis
    proof (cases "split_on sep s")
      case Nil
      with False Cons.prems show ?thesis by simp
    next
      case (Cons v vs)
      with False Cons.prems have "w = c # v \<or> w \<in> set vs"
        by simp
      with Cons Cons.IH [of v] Cons.IH [of w] show ?thesis
        by auto
    qed
  qed
qed

lemma strip_chars: "set (strip s) \<subseteq> set s"
proof -
  have "set (dropWhile isspace (rev (dropWhile isspace s))) \<subseteq> set (rev (dropWhile isspace s))"
    by (meson set_dropWhileD subsetI)
  moreover have "set (dropWhile isspace s) \<subseteq> set s"
    by (meson set_dropWhileD subsetI)
  ultimately show ?thesis
    by (auto simp: strip_def)
qed

lemma wire_fields_encode:
  assumes "decode line = Inr text" and "w \<in> set (split (strip text))"
  shows "\<exists>b. encode w = Inr b"
proof -
  from decode_encode [OF assms(1)] have "\<exists>b. encode text = Inr b"
    by blast
  then have all: "list_all (\<lambda>cp. \<exists>b. encode_char cp = Inr b) text"
    by (simp add: encode_ok_iff)
  from assms(2) have "set w \<subseteq> set (strip text)"
    by (simp add: split_def split_on_chars)
  with strip_chars have "set w \<subseteq> set text"
    by blast
  with all have "list_all (\<lambda>cp. \<exists>b. encode_char cp = Inr b) w"
    by (auto simp: list_all_iff)
  then show ?thesis
    by (simp add: encode_ok_iff)
qed

section \<open>Properties of the storage node\<close>

lemma str_nat_ascii: "list_all (\<lambda>c. c < 128) (str_nat n)"
proof (induction n rule: str_nat.induct)
  case (1 n)
  show ?case
  proof (cases "n < 10")
    case True
    then show ?thesis by (subst str_nat.simps) simp
  next
    case False
    with 1 have "list_all (\<lambda>c. c < 128) (str_nat (n div 10))" by simp
    moreover have "48 + n mod 10 < 128" by simp
    ultimately show ?thesis using False by (subst str_nat.simps) simp
  qed
qed

lemma str_int_ascii: "list_all (\<lambda>c. c < 128) (str_int i)"
  by (simp add: str_int_def str_nat_ascii)

lemma encode_str_int: "encode (str_int i) = Inr (map char_of (str_int i))"
  by (rule encode_ascii [OF str_int_ascii])

lemma encode_literal:
  "list_all (\<lambda>c. (of_char c :: nat) < 128) s \<Longrightarrow> encode (ascii s) = Inr s"
  by (induction s) (simp_all add: ascii_def encode_ascii_char)

lemma send_status:
  "send c (Str (StatusCode_value StatusCode_OK)) = Inr (sendall c ''OK'')"
  "send c (Str (StatusCode_value StatusCode_NOT_FOUND)) = Inr (sendall c ''NOT_FOUND'')"
  "send c (Str (StatusCode_value StatusCode_INSUFFICIENT_SPACE))
     = Inr (sendall c ''INSUFFICIENT_SPACE'')"
  by (simp_all add: send_def StatusCode_value_def encode_literal)

lemma handle_put_unfold:
  "handle_put self client (filename # rest) =
     (if int (length (fst (receive client))) > available_space (b_spec self)
      then Inr (StatusCode_INSUFFICIENT_SPACE,
                sendall (snd (receive client)) ''INSUFFICIENT_SPACE'', self)
      else Inr (StatusCode_OK, sendall (snd (receive client)) ''OK'',
                self\<lparr>b_files := AList.update filename (fst (receive client)) (b_files self),
                     b_spec := \<lparr>files_count = files_count (b_spec self) + 1,
                                available_space = available_space (b_spec self)
                                                    - int (length (fst (receive client))),
                                used_space = get_directory_size
                                  (AList.update filename (fst (receive client)) (b_files self))\<rparr>\<rparr>))"
  by (simp add: handle_put_def send_status Let_def split: prod.split)


lemma encode_space: "encode_char 32 = Inr '' ''"
  by code_simp

lemma send_Bytes: "send c (Bytes b) = Inr (sendall c b)"
  by (simp add: send_def)



lemma receive_prefix:
  "length (fst (receive c)) \<le> CHUNK_SIZE \<and> prefix (fst (receive c)) (concat (inbox c))"
proof (cases "inbox c")
  case Nil
  then show ?thesis by (simp add: receive_def)
next
  case (Cons seg rest)
  have "prefix (take CHUNK_SIZE seg) seg"
    by (rule take_is_prefix)
  then have "prefix (take CHUNK_SIZE seg) (seg @ concat rest)"
    by (rule prefix_prefix)
  with Cons show ?thesis by (simp add: receive_def)
qed

lemma receive_whole:
  assumes "inbox c = [payload]" and "length payload \<le> CHUNK_SIZE"
  shows "fst (receive c) = payload" and "concat (inbox c) = payload"
  using assms by (simp_all add: receive_def)

lemma receive_not_whole:
  assumes "CHUNK_SIZE < length (concat (inbox c))"
  shows "fst (receive c) \<noteq> concat (inbox c)"
proof
  assume "fst (receive c) = concat (inbox c)"
  then have "length (fst (receive c)) = length (concat (inbox c))"
    by simp
  with assms receive_prefix [of c] show False
    by simp
qed

lemma receive_big:
  "receive conn_big = (replicate 1024 (CHR ''x''), fresh [replicate 976 (CHR ''x'')])"
  by (simp add: receive_def conn_big_def fresh_def CHUNK_SIZE_def)


lemma receive_hello: "receive (fresh [''hello'']) = (''hello'', fresh [])"
  by (simp add: receive_def fresh_def CHUNK_SIZE_def)

lemma bucket0_spec:
  "b_spec bucket0 = \<lparr>files_count = 0, available_space = 250000000, used_space = 0\<rparr>"
  "b_files bucket0 = []"
  by (simp_all add: bucket0_def Bucket_init_def DEFAULT_SPACE_def)

lemma encode_a_txt: "encode (ascii ''a.txt'') = Inr ''a.txt''"
  by (simp add: encode_literal)




text \<open>
  C4. \<open>handle_put\<close> answers \<open>INSUFFICIENT_SPACE\<close> exactly when a payload was received
  (the command named a file) and its length is strictly greater than the current
  \<open>available_space\<close>; the bucket is then returned as it was: no file written, no field
  of the spec changed.
\<close>

theorem put_rejected_iff:
  "((\<exists>status self1. handle_put self client args
        = Inr (status, sendall (snd (receive client)) ''INSUFFICIENT_SPACE'', self1))
      \<longleftrightarrow> (args \<noteq> [] \<and> int (length (fst (receive client))) > available_space (b_spec self)))
   \<and> (args \<noteq> [] \<and> int (length (fst (receive client))) > available_space (b_spec self)
        \<longrightarrow> handle_put self client args
             = Inr (StatusCode_INSUFFICIENT_SPACE,
                    sendall (snd (receive client)) ''INSUFFICIENT_SPACE'', self))"
proof (cases args)
  case Nil
  then show ?thesis by (simp add: handle_put_def)
next
  case (Cons filename rest)
  have differ: "sendall c ''OK'' \<noteq> sendall c ''INSUFFICIENT_SPACE''" for c
  proof
    assume "sendall c ''OK'' = sendall c ''INSUFFICIENT_SPACE''"
    then have "outbox (sendall c ''OK'') = outbox (sendall c ''INSUFFICIENT_SPACE'')"
      by simp
    then show False by (simp add: sendall_def)
  qed
  show ?thesis
    by (simp add: Cons handle_put_unfold differ)
qed

theorem put_rejected_iff_witness:
  "handle_put bucket_full (fresh [''hello'']) [ascii ''a.txt'']
     = Inr (StatusCode_INSUFFICIENT_SPACE,
            \<lparr>inbox = [], outbox = [''INSUFFICIENT_SPACE''], closed = False\<rparr>, bucket_full)
   \<and> int (length ''hello'') > available_space (b_spec bucket_full)"
  using put_rejected_iff [of bucket_full "fresh [''hello'']" "[ascii ''a.txt'']"]
  by (simp add: receive_hello bucket_full_def) (simp add: sendall_def fresh_def)

lemma handle_delete_found:
  assumes "map_of (b_files self) filename = Some content"
  shows "handle_delete self c (filename # rest) =
           Inr (StatusCode_OK, sendall c ''OK'',
                self\<lparr>b_spec := (b_spec self)\<lparr>available_space :=
                        available_space (b_spec self) + int (length content)\<rparr>,
                     b_files := AList.delete filename (b_files self)\<rparr>)"
  using assms by (simp add: handle_delete_def send_status)

text \<open>
  After a \<open>PUT\<close> that replied \<open>OK\<close>, a \<open>DELETE\<close> of the same file replies \<open>OK\<close> and
  gives back the space; \<open>handle_delete\<close> touches neither \<open>files_count\<close> nor
  \<open>used_space\<close>.
\<close>

lemma put_then_delete:
  assumes put: "handle_put self client (filename # rest) = Inr (StatusCode_OK, client1, self1)"
  shows "\<exists>self2. handle_delete self1 c (filename # rest1)
                    = Inr (StatusCode_OK, sendall c ''OK'', self2)
          \<and> available_space (b_spec self2) = available_space (b_spec self)
          \<and> files_count (b_spec self2) = files_count (b_spec self) + 1
          \<and> used_space (b_spec self2) = used_space (b_spec self1)"
proof -
  from put have ok: "\<not> int (length (fst (receive client))) > available_space (b_spec self)"
    by (simp add: handle_put_unfold split: if_splits)
  with put have self1: "self1 = self\<lparr>b_files := AList.update filename (fst (receive client)) (b_files self),
                     b_spec := \<lparr>files_count = files_count (b_spec self) + 1,
                                available_space = available_space (b_spec self)
                                                    - int (length (fst (receive client))),
                                used_space = get_directory_size
                                  (AList.update filename (fst (receive client)) (b_files self))\<rparr>\<rparr>"
    by (simp add: handle_put_unfold)
  have stored: "map_of (b_files self1) filename = Some (fst (receive client))"
    by (simp add: self1 update_conv')
  show ?thesis
    by (simp add: handle_delete_found [OF stored]) (simp add: self1)
qed

text \<open>
  C5. On a new bucket, \<open>PUT a.txt\<close> with the payload \<open>hello\<close> and then \<open>DELETE a.txt\<close>
  both reply \<open>OK\<close>. \<open>available_space\<close> is back at its value before the \<open>PUT\<close>, the
  directory is empty again, and \<open>files_count\<close> is 1 where it was 0 before the \<open>PUT\<close>.
\<close>

theorem put_delete_files_count:
  "\<exists>client1 self1 client2 self2.
     handle_put bucket0 (fresh [''hello'']) [ascii ''a.txt''] = Inr (StatusCode_OK, client1, self1)
     \<and> handle_delete self1 (fresh []) [ascii ''a.txt''] = Inr (StatusCode_OK, client2, self2)
     \<and> available_space (b_spec bucket0) = 250000000
     \<and> available_space (b_spec self2) = 250000000
     \<and> files_count (b_spec bucket0) = 0
     \<and> files_count (b_spec self2) = 1
     \<and> b_files self2 = []"
proof -
  obtain client1 self1 where
    put: "handle_put bucket0 (fresh [''hello'']) [ascii ''a.txt'']
            = Inr (StatusCode_OK, client1, self1)"
    by (simp add: handle_put_unfold receive_hello bucket0_spec)
  from put have files: "b_files self1 = [(ascii ''a.txt'', ''hello'')]"
    by (simp add: handle_put_unfold receive_hello bucket0_spec split: if_splits) auto
  from put_then_delete [OF put, of "fresh []" "[]"] obtain self2 where
    del: "handle_delete self1 (fresh []) [ascii ''a.txt'']
            = Inr (StatusCode_OK, sendall (fresh []) ''OK'', self2)"
    and spec2: "available_space (b_spec self2) = available_space (b_spec bucket0)"
      "files_count (b_spec self2) = files_count (b_spec bucket0) + 1"
    by blast
  have "map_of (b_files self1) (ascii ''a.txt'') = Some ''hello''"
    by (simp add: files)
  from handle_delete_found [OF this, of "fresh []" "[]"] del
  have "b_files self2 = []"
    by (simp add: files)
  with put del spec2 show ?thesis
    by (simp add: bucket0_spec)
qed

section \<open>Properties of the loops of the storage node and the registry\<close>

lemma receive_fresh:
  "length seg \<le> CHUNK_SIZE \<Longrightarrow> receive (fresh (seg # rest)) = (seg, fresh rest)"
  by (simp add: receive_def fresh_def)

lemma decode_ascii:
  "list_all (\<lambda>c. (of_char c :: nat) < 128) s \<Longrightarrow> decode s = Inr (ascii s)"
  by (induction s) (simp_all add: ascii_def decode_char_def decode.simps)


lemma strip_id:
  assumes "s \<noteq> []" and "\<not> isspace (hd s)" and "\<not> isspace (last s)"
  shows "strip s = s"
proof -
  have "dropWhile isspace s = s"
    using assms by (simp add: dropWhile_eq_self_iff)
  moreover have "dropWhile isspace (rev s) = rev s"
    using assms by (simp add: dropWhile_eq_self_iff hd_rev)
  ultimately show ?thesis by (simp add: strip_def)
qed

lemma line_frobnicate_upper: "split (strip (ascii ''FROBNICATE x'')) = [ascii ''FROBNICATE'', ascii ''x'']"
  by (simp add: strip_id split_def ascii_def isspace_def)

lemma line_register: "split (strip (ascii register_line)) =
   [ascii ''register'', ascii ''b1'', ascii ''localhost'', ascii ''3001'', ascii ''eu'',
    ascii ''/srv/.data/b1'', ascii ''0'', ascii ''250000000'', ascii ''0'']"
  by (simp add: strip_id split_def ascii_def isspace_def register_line_def)

lemma serve_unknown_verb: "serve bucket0 (fresh [''FROBNICATE x'']) = Inl AttributeError"
  by (simp add: serve_def receive_fresh CHUNK_SIZE_def decode_ascii line_frobnicate_upper lower_def
      getattr_handle_def) (simp add: ascii_def)


lemma line_get: "split (strip (ascii ''GET'')) = [ascii ''GET'']"
  by (simp add: strip_id split_def ascii_def isspace_def)

lemma line_update: "split (strip (ascii ''update nobody 0 0 0'')) =
   [ascii ''update'', ascii ''nobody'', ascii ''0'', ascii ''0'', ascii ''0'']"
  by (simp add: strip_id split_def ascii_def isspace_def)

lemma line_register_short: "split (strip (ascii ''register b1 localhost'')) =
   [ascii ''register'', ascii ''b1'', ascii ''localhost'']"
  by (simp add: strip_id split_def ascii_def isspace_def)

lemma serve_get_without_name: "serve bucket0 (fresh [''GET'']) = Inl IndexError"
  by (simp add: serve_def receive_fresh CHUNK_SIZE_def decode_ascii line_get lower_def
      getattr_handle_def) (simp add: ascii_def handle_get_def)

lemma int0: "py_int (ascii ''0'') = Inr 0"
  by (simp add: py_int_def strip_id ascii_def isspace_def isdigit_def literal_value_def)

lemma int3001: "py_int (ascii ''3001'') = Inr 3001"
  by (simp add: py_int_def strip_id ascii_def isspace_def isdigit_def literal_value_def)

lemma subject1_observers: "s_observers subject1 = [manager0, manager0]"
  by (simp add: subject1_def subscribe_def Subject_init_def)

lemma listen_update_unknown: "listen_one subject1 (fresh [''update nobody 0 0 0'']) = Inl KeyError"
proof -
  have cmd: "ascii ''update'' \<noteq> ascii ''register''" "ascii ''update'' \<noteq> ascii ''unregister''"
    by (simp_all add: ascii_def)
  have "notify subject1 (update_event [ascii ''nobody'', ascii ''0'', ascii ''0'', ascii ''0''])
          = Inl KeyError"
    by (simp add: notify_def update_event_def make_spec_def int0 subject1_observers
          deliver_def updated_def manager0_def)
  then show ?thesis
    by (simp add: listen_one_def receive_fresh CHUNK_SIZE_def decode_ascii line_update cmd)
qed

lemma listen_register_short: "listen_one subject1 (fresh [''register b1 localhost'']) = Inl ValueError"
proof -
  have "notify subject1 (register_event [ascii ''b1'', ascii ''localhost'']) = Inl ValueError"
    by (simp add: notify_def register_event_def)
  then show ?thesis
    by (simp add: listen_one_def receive_fresh CHUNK_SIZE_def decode_ascii line_register_short)
qed

text \<open>
  C7. Neither \<open>Bucket.run\<close> nor \<open>Subject.listen\<close> catches what the handling of a
  request raises, so one bad request ends the loop and the next connection is never
  served: at the storage node an unknown verb (\<open>AttributeError\<close> of the \<open>getattr\<close>) or
  a \<open>GET\<close> without a file name (\<open>IndexError\<close>); at the registry an \<open>update\<close> for a
  bucket id no manager knows (\<open>KeyError\<close> in \<open>Manager.updated\<close>) or a \<open>register\<close>
  with too few fields (\<open>ValueError\<close> of the unpacking).
\<close>

theorem bad_request_ends_loop:
  "run bucket0 [fresh [''FROBNICATE x''], fresh [''SPEC'']] = ([], Inl AttributeError)
   \<and> run bucket0 [fresh [''GET''], fresh [''SPEC'']] = ([], Inl IndexError)
   \<and> listen subject1 [fresh [''update nobody 0 0 0''], fresh [register_line]]
       = ([], Inl KeyError)
   \<and> listen subject1 [fresh [''register b1 localhost''], fresh [register_line]]
       = ([], Inl ValueError)"
  by (simp add: serve_unknown_verb serve_get_without_name listen_update_unknown listen_register_short)

lemma for_observers_registered:
  "for_observers (Inr (Registered h)) i observers =
     Inr (map (\<lambda>m. m\<lparr>m_log := m_log m @ [Info_event (Registered h)],
                      m_buckets := AList.update (c_id h) h (m_buckets m)\<rparr>) observers,
          map (\<lambda>k. (k, Registered h)) [i ..< i + length observers])"
proof (induction observers arbitrary: i)
  case Nil
  show ?case by simp
next
  case (Cons m ms)
  have "[i ..< i + length (m # ms)] = i # [Suc i ..< Suc i + length ms]"
    by (subst upt_rec) simp
  with Cons [of "Suc i"] show ?case
    by (simp add: deliver_def registered_def)
qed

text \<open>
  C6. A \<open>register\<close> line with its eight fields, whose port and three counters read as
  integers, makes the registry call \<open>registered\<close> exactly once on every subscribed
  observer, in subscription order (positions \<open>0, 1, ...\<close> of the list of observers), each
  time with a handle whose id, host, port, region, path and spec are the transmitted
  fields; every observer has then logged the call and stored the handle under its id.
\<close>

theorem register_fan_out:
  assumes line: "decode (fst (receive conn)) = Inr text"
    and fields: "split (strip text)
                   = [ascii ''register'', ident, host, port, region, path, fc, av, us]"
    and ints: "py_int port = Inr p" "py_int fc = Inr n1" "py_int av = Inr n2"
      "py_int us = Inr n3"
    and handle: "h = \<lparr>c_host = host, c_port = p, c_base_path = path, c_id = ident,
                     c_region = region, c_files = [],
                     c_spec = Some \<lparr>files_count = n1, available_space = n2,
                                    used_space = n3\<rparr>\<rparr>"
  shows "listen_one self conn =
           Inr (close (snd (receive conn)),
                self\<lparr>s_observers :=
                       map (\<lambda>m. m\<lparr>m_log := m_log m @ [Info_event (Registered h)],
                                    m_buckets := AList.update ident h (m_buckets m)\<rparr>)
                         (s_observers self),
                     s_calls := s_calls self
                       @ map (\<lambda>k. (k, Registered h)) [0 ..< length (s_observers self)]\<rparr>)"
proof -
  have ev: "register_event [ident, host, port, region, path, fc, av, us] = Inr (Inr (Registered h))"
    by (simp add: register_event_def make_spec_def ints handle Client_init_def)
  have "notify self (register_event [ident, host, port, region, path, fc, av, us])
          = Inr (self\<lparr>s_observers :=
                       map (\<lambda>m. m\<lparr>m_log := m_log m @ [Info_event (Registered h)],
                                    m_buckets := AList.update ident h (m_buckets m)\<rparr>)
                         (s_observers self),
                     s_calls := s_calls self
                       @ map (\<lambda>k. (k, Registered h)) [0 ..< length (s_observers self)]\<rparr>)"
    by (simp add: notify_def ev for_observers_registered) (simp add: handle)
  then show ?thesis
    using line fields by (simp add: listen_one_def case_prod_beta)
qed


lemma int250: "py_int (ascii ''250000000'') = Inr 250000000"
  by (simp add: py_int_def strip_id ascii_def isspace_def isdigit_def literal_value_def)

theorem register_fan_out_witness:
  "listen_one subject1 (fresh [register_line]) =
     Inr (\<lparr>inbox = [], outbox = [], closed = True\<rparr>,
          \<lparr>s_observers =
             [\<lparr>m_buckets = [(ascii ''b1'', handle0)], m_log = [Info_event (Registered handle0)]\<rparr>,
              \<lparr>m_buckets = [(ascii ''b1'', handle0)], m_log = [Info_event (Registered handle0)]\<rparr>],
           s_calls = [(0, Registered handle0), (1, Registered handle0)]\<rparr>)"
proof -
  have rcv: "receive (fresh [register_line]) = (register_line, fresh [])"
    by (rule receive_fresh) (simp add: register_line_def CHUNK_SIZE_def)
  have line: "decode (fst (receive (fresh [register_line]))) = Inr (ascii register_line)"
    unfolding rcv by (simp add: decode_ascii register_line_def)
  have fields: "split (strip (ascii register_line)) =
      [ascii ''register'', ascii ''b1'', ascii ''localhost'', ascii ''3001'', ascii ''eu'',
       ascii ''/srv/.data/b1'', ascii ''0'', ascii ''250000000'', ascii ''0'']"
    by (rule line_register)
  have two: "[0 ..< length (s_observers subject1)] = [0, 1]"
    by (simp add: subject1_observers upt_rec)
  show ?thesis
    using register_fan_out [OF line fields int3001 int0 int250 int0, of handle0 subject1]
    by (simp add: handle0_def rcv subject1_observers two manager0_def)
      (simp add: subject1_def subscribe_def Subject_init_def close_def fresh_def)
qed

section \<open>Properties of the placement\<close>

lemma hd_sort_key_min:
  assumes "ks \<noteq> []"
  shows "hd (sort_key f ks) \<in> set ks \<and> (\<forall>k\<in>set ks. f (hd (sort_key f ks)) \<le> f k)"
proof -
  from assms have "sort_key f ks \<noteq> []"
    by (metis length_sort length_0_conv)
  then obtain x xs where s: "sort_key f ks = x # xs"
    by (cases "sort_key f ks") auto
  have "sorted (map f (sort_key f ks))"
    by (rule sorted_sort_key)
  with s have le: "\<forall>y\<in>set xs. f x \<le> f y"
    by simp
  have "set (x # xs) = set ks"
    using s set_sort [of f ks] by simp
  with le s show ?thesis
    by auto
qed

lemma hd_sort_key_first:
  assumes "ks \<noteq> []"
  shows "hd (sort_key f ks) = hd (filter (\<lambda>y. f y = f (hd (sort_key f ks))) ks)"
proof -
  from assms have "sort_key f ks \<noteq> []"
    by (metis length_sort length_0_conv)
  then obtain x xs where s: "sort_key f ks = x # xs"
    by (cases "sort_key f ks") auto
  have "filter (\<lambda>y. f y = f x) (sort_key f ks) = filter (\<lambda>y. f y = f x) ks"
    by (rule sort_key_stable)
  with s have "filter (\<lambda>y. f y = f x) ks = x # filter (\<lambda>y. f y = f x) xs"
    by simp
  with s show ?thesis
    by simp
qed

lemma keyed_Inr:
  "keyed region bs = Inr ks \<Longrightarrow>
     map snd ks = bs \<and> (\<forall>k\<in>set ks. distance region (c_region (snd k)) = Inr (fst k))"
proof (induction bs arbitrary: ks)
  case Nil
  then show ?case by simp
next
  case (Cons b bs)
  from Cons.prems obtain d rest where
    d: "distance region (c_region b) = Inr d" and rest: "keyed region bs = Inr rest"
    and ks: "ks = (d, b) # rest"
    by (cases "distance region (c_region b)"; cases "keyed region bs") auto
  from Cons.IH [OF rest] d ks show ?case by simp
qed

lemma keyed_total:
  "\<forall>b\<in>set bs. \<exists>d. distance region (c_region b) = Inr d \<Longrightarrow> \<exists>ks. keyed region bs = Inr ks"
  by (induction bs) auto

lemma keyed_fails:
  "b \<in> set bs \<Longrightarrow> distance region (c_region b) = Inl e \<Longrightarrow> \<exists>e1. keyed region bs = Inl e1"
proof (induction bs)
  case Nil
  then show ?case by simp
next
  case (Cons a bs)
  show ?case
  proof (cases "distance region (c_region a)")
    case (Inl e1)
    then show ?thesis by simp
  next
    case (Inr d)
    show ?thesis
    proof (cases "a = b")
      case True
      with Inr Cons.prems show ?thesis by simp
    next
      case False
      with Cons obtain e1 where "keyed region bs = Inl e1" by auto
      with Inr show ?thesis by simp
    qed
  qed
qed

lemma select_bucket_none:
  "\<not> (\<exists>b\<in>set buckets. int sz \<le> get_bucket_available_space b) \<Longrightarrow>
     select_bucket region buckets (Some sz) = Inr None"
  by (simp add: select_bucket_def filter_empty_conv)

lemma select_bucket_some:
  assumes sel: "select_bucket region buckets (Some sz) = Inr (Some m)"
  shows "m \<in> set buckets \<and> int sz \<le> get_bucket_available_space m
       \<and> (\<exists>dm. distance region (c_region m) = Inr dm
            \<and> (\<forall>b\<in>set buckets. int sz \<le> get_bucket_available_space b \<longrightarrow>
                  (\<exists>d. distance region (c_region b) = Inr d \<and> dm \<le> d)))"
proof -
  define av where "av = filter (\<lambda>b. int sz \<le> get_bucket_available_space b) buckets"
  from sel have ne: "av \<noteq> []"
    by (auto simp: select_bucket_def av_def split: if_splits)
  with sel obtain ks where ks: "keyed region av = Inr ks"
    and m: "m = snd (hd (sort_key fst ks))"
    by (cases "keyed region av") (auto simp: select_bucket_def av_def)
  from keyed_Inr [OF ks] have snd_ks: "map snd ks = av"
    and dist: "\<forall>k\<in>set ks. distance region (c_region (snd k)) = Inr (fst k)"
    by simp_all
  from snd_ks ne have "ks \<noteq> []" by auto
  from hd_sort_key_min [OF this, of fst]
  have hd_in: "hd (sort_key fst ks) \<in> set ks"
    and hd_le: "\<forall>k\<in>set ks. fst (hd (sort_key fst ks)) \<le> fst k"
    by simp_all
  from hd_in snd_ks have "m \<in> set av"
    unfolding m by (metis image_eqI set_map)
  then have m_in: "m \<in> set buckets" and m_ok: "int sz \<le> get_bucket_available_space m"
    by (simp_all add: av_def)
  from hd_in dist have dm: "distance region (c_region m) = Inr (fst (hd (sort_key fst ks)))"
    unfolding m by blast
  have "\<exists>d. distance region (c_region b) = Inr d \<and> fst (hd (sort_key fst ks)) \<le> d"
    if "b \<in> set buckets" and "int sz \<le> get_bucket_available_space b" for b
  proof -
    from that have "b \<in> set av" by (simp add: av_def)
    with snd_ks obtain k where "k \<in> set ks" and "snd k = b"
      by (metis imageE set_map)
    with dist hd_le show ?thesis by auto
  qed
  with m_in m_ok dm show ?thesis by blast
qed

lemma select_bucket_defined:
  assumes "\<forall>b\<in>set buckets. int sz \<le> get_bucket_available_space b \<longrightarrow>
             (\<exists>d. distance region (c_region b) = Inr d)"
  shows "\<exists>r. select_bucket region buckets (Some sz) = Inr r"
proof -
  have "\<exists>ks. keyed region (filter (\<lambda>b. int sz \<le> get_bucket_available_space b) buckets) = Inr ks"
    by (rule keyed_total) (use assms in auto)
  then show ?thesis
    by (auto simp: select_bucket_def Let_def)
qed

lemma select_bucket_raises:
  assumes "b \<in> set buckets" and "int sz \<le> get_bucket_available_space b"
    and "distance region (c_region b) = Inl e"
  shows "\<exists>e1. select_bucket region buckets (Some sz) = Inl e1"
proof -
  from assms(1,2) have "b \<in> set (filter (\<lambda>b. int sz \<le> get_bucket_available_space b) buckets)"
    by simp
  from keyed_fails [OF this assms(3)] assms(1,2) show ?thesis
    by (auto simp: select_bucket_def filter_empty_conv Let_def)
qed


text \<open>
  Ties are broken by the order of the known buckets: the bucket selected is the first
  of the buckets with enough space that are at its distance.
\<close>

lemma select_bucket_first:
  assumes sel: "select_bucket region buckets (Some sz) = Inr (Some m)"
  shows "m = hd (filter (\<lambda>b. distance region (c_region b) = distance region (c_region m))
                  (filter (\<lambda>b. int sz \<le> get_bucket_available_space b) buckets))"
proof -
  define av where "av = filter (\<lambda>b. int sz \<le> get_bucket_available_space b) buckets"
  from sel have ne: "av \<noteq> []"
    by (auto simp: select_bucket_def av_def Let_def split: if_splits)
  with sel obtain ks where ks: "keyed region av = Inr ks"
    and m: "m = snd (hd (sort_key fst ks))"
    by (cases "keyed region av") (auto simp: select_bucket_def av_def Let_def)
  from keyed_Inr [OF ks] have snd_ks: "map snd ks = av"
    and dist: "\<forall>k\<in>set ks. distance region (c_region (snd k)) = Inr (fst k)"
    by simp_all
  from snd_ks ne have ks_ne: "ks \<noteq> []" by auto
  define h where "h = hd (sort_key fst ks)"
  from hd_sort_key_min [OF ks_ne, of fst] have h_in: "h \<in> set ks"
    by (simp add: h_def)
  from hd_sort_key_first [OF ks_ne, of fst]
  have h: "h = hd (filter (\<lambda>k. fst k = fst h) ks)"
    by (simp add: h_def)
  from h_in dist have dm: "distance region (c_region m) = Inr (fst h)"
    by (simp add: m h_def)
  have same: "filter (\<lambda>b. distance region (c_region b) = Inr (fst h)) (map snd ks)
                = map snd (filter (\<lambda>k. fst k = fst h) ks)"
    using dist by (induction ks) auto
  from h_in have "filter (\<lambda>k. fst k = fst h) ks \<noteq> []"
    by (auto simp: filter_empty_conv)
  then have "hd (map snd (filter (\<lambda>k. fst k = fst h) ks)) = snd (hd (filter (\<lambda>k. fst k = fst h) ks))"
    by (rule hd_map)
  with h have "hd (map snd (filter (\<lambda>k. fst k = fst h) ks)) = m"
    by (simp add: m h_def)
  with same snd_ks dm show ?thesis
    by (simp add: av_def)
qed

text \<open>The table has an entry for two regions exactly when they differ.\<close>

lemma distance_entries:
  assumes "a \<in> set regions" and "b \<in> set regions"
  shows "(\<exists>d. distance a b = Inr d) \<longleftrightarrow> a \<noteq> b"
proof -
  have rows: "map fst DISTANCE_MATRIX = regions"
    by (simp add: DISTANCE_MATRIX_def regions_def)
  have "list_all (\<lambda>a. list_all (\<lambda>b. (\<exists>d. distance a b = Inr d) \<longleftrightarrow> a \<noteq> b) regions) regions"
    unfolding regions_def
    by (simp add: distance_def DISTANCE_MATRIX_def ascii_def)
  with assms show ?thesis
    by (simp add: list_all_iff)
qed

lemma upload_none:
  assumes "select_bucket (ctx_region ctx) (ctx_buckets ctx)
             (Some (length (fst (receive (ctx_connection ctx))))) = Inr None"
  shows "UploadHandler_handle ctx net unused filename
           = outcome_of Status_ERROR NO_CONTENT None (Some RuntimeError)
               (snd (receive (ctx_connection ctx))) []"
  using assms by (simp add: UploadHandler_handle_def case_prod_beta)

lemma upload_raises:
  assumes "select_bucket (ctx_region ctx) (ctx_buckets ctx)
             (Some (length (fst (receive (ctx_connection ctx))))) = Inl e"
  shows "UploadHandler_handle ctx net unused filename
           = outcome_of Status_ERROR NO_CONTENT None (Some e)
               (snd (receive (ctx_connection ctx))) []"
  using assms by (simp add: UploadHandler_handle_def case_prod_beta)

text \<open>
  C2, as amended. Where every bucket with enough space lies in a region that has an
  entry in the manager region's row of the distance table, \<open>select_bucket\<close> returns a
  bucket with enough space whose distance from the manager's region is least among
  exactly the buckets with enough space; and where no bucket has enough space it
  returns none, and the upload answers \<open>ERROR\<close> without writing anywhere.
\<close>

theorem select_bucket_nearest:
  assumes entries: "\<forall>b\<in>set buckets. int sz \<le> get_bucket_available_space b \<longrightarrow>
                      (\<exists>d. distance region (c_region b) = Inr d)"
  shows "((\<exists>b\<in>set buckets. int sz \<le> get_bucket_available_space b) \<longrightarrow>
            (\<exists>m dm. select_bucket region buckets (Some sz) = Inr (Some m)
               \<and> m \<in> set buckets \<and> int sz \<le> get_bucket_available_space m
               \<and> distance region (c_region m) = Inr dm
               \<and> (\<forall>b\<in>set buckets. int sz \<le> get_bucket_available_space b \<longrightarrow>
                     (\<exists>d. distance region (c_region b) = Inr d \<and> dm \<le> d))))
       \<and> (\<not> (\<exists>b\<in>set buckets. int sz \<le> get_bucket_available_space b) \<longrightarrow>
            select_bucket region buckets (Some sz) = Inr None
            \<and> (\<forall>ctx net unused filename.
                  ctx_region ctx = region \<and> ctx_buckets ctx = buckets
                  \<and> length (fst (receive (ctx_connection ctx))) = sz \<longrightarrow>
                  o_response (UploadHandler_handle ctx net unused filename)
                    = \<lparr>r_status = Status_ERROR, r_content_type = NO_CONTENT, r_data = None\<rparr>
                  \<and> o_error (UploadHandler_handle ctx net unused filename) = Some RuntimeError
                  \<and> o_attempts (UploadHandler_handle ctx net unused filename) = []))"
proof (intro conjI impI)
  assume some: "\<exists>b\<in>set buckets. int sz \<le> get_bucket_available_space b"
  from select_bucket_defined [OF entries] obtain r where
    r: "select_bucket region buckets (Some sz) = Inr r"
    by blast
  from some have "filter (\<lambda>b. int sz \<le> get_bucket_available_space b) buckets \<noteq> []"
    by (simp add: filter_empty_conv)
  with r obtain m where "r = Some m"
    by (cases "keyed region (filter (\<lambda>b. int sz \<le> get_bucket_available_space b) buckets)")
      (auto simp: select_bucket_def Let_def)
  with r have sel: "select_bucket region buckets (Some sz) = Inr (Some m)"
    by simp
  from select_bucket_some [OF sel] sel
  show "\<exists>m dm. select_bucket region buckets (Some sz) = Inr (Some m)
          \<and> m \<in> set buckets \<and> int sz \<le> get_bucket_available_space m
          \<and> distance region (c_region m) = Inr dm
          \<and> (\<forall>b\<in>set buckets. int sz \<le> get_bucket_available_space b \<longrightarrow>
                (\<exists>d. distance region (c_region b) = Inr d \<and> dm \<le> d))"
    by blast
next
  assume none: "\<not> (\<exists>b\<in>set buckets. int sz \<le> get_bucket_available_space b)"
  then show "select_bucket region buckets (Some sz) = Inr None"
    by (rule select_bucket_none)
next
  assume none: "\<not> (\<exists>b\<in>set buckets. int sz \<le> get_bucket_available_space b)"
  have sel: "select_bucket region buckets (Some sz) = Inr None"
    using none by (rule select_bucket_none)
  show "\<forall>ctx net unused filename.
          ctx_region ctx = region \<and> ctx_buckets ctx = buckets
          \<and> length (fst (receive (ctx_connection ctx))) = sz \<longrightarrow>
          o_response (UploadHandler_handle ctx net unused filename)
            = \<lparr>r_status = Status_ERROR, r_content_type = NO_CONTENT, r_data = None\<rparr>
          \<and> o_error (UploadHandler_handle ctx net unused filename) = Some RuntimeError
          \<and> o_attempts (UploadHandler_handle ctx net unused filename) = []"
  proof (intro allI impI)
    fix ctx :: request_context and net unused filename
    assume "ctx_region ctx = region \<and> ctx_buckets ctx = buckets
              \<and> length (fst (receive (ctx_connection ctx))) = sz"
    with sel have "select_bucket (ctx_region ctx) (ctx_buckets ctx)
             (Some (length (fst (receive (ctx_connection ctx))))) = Inr None"
      by simp
    from upload_none [OF this]
    show "o_response (UploadHandler_handle ctx net unused filename)
            = \<lparr>r_status = Status_ERROR, r_content_type = NO_CONTENT, r_data = None\<rparr>
          \<and> o_error (UploadHandler_handle ctx net unused filename) = Some RuntimeError
          \<and> o_attempts (UploadHandler_handle ctx net unused filename) = []"
      by (simp add: outcome_of_def)
  qed
qed

lemma distances_from_latin_america:
  "distance REGION (ascii ''us-east'') = Inr 1500"
  "distance REGION (ascii ''eu'') = Inr 5000"
  "distance REGION (ascii ''asia'') = Inr 11000"
  "distance REGION (ascii ''latin-america'') = Inl KeyError"
  by (simp_all add: distance_def DISTANCE_MATRIX_def REGION_def ascii_def)

text \<open>
  C2 as stated fails. The manager, in \<open>latin-america\<close>, knows a bucket in \<open>us-east\<close>
  and a bucket in \<open>latin-america\<close>, both with ample space for a 10-byte upload. Both
  qualify, yet the selection is neither of them, nor none: the table has no entry from
  a region to itself, the key of the sort raises \<open>KeyError\<close>, and the upload answers
  \<open>ERROR\<close> with nothing written.
\<close>

theorem select_bucket_same_region:
  "select_bucket REGION
     [handle_at ''b-us-east'' ''us-east'' 250000000,
      handle_at ''b-la'' ''latin-america'' 250000000] (Some 10) = Inl KeyError
   \<and> int 10 \<le> get_bucket_available_space (handle_at ''b-us-east'' ''us-east'' 250000000)
   \<and> int 10 \<le> get_bucket_available_space (handle_at ''b-la'' ''latin-america'' 250000000)
   \<and> o_response (UploadHandler_handle
        \<lparr>ctx_region = REGION,
         ctx_buckets = [handle_at ''b-us-east'' ''us-east'' 250000000,
                        handle_at ''b-la'' ''latin-america'' 250000000],
         ctx_connection = fresh [''0123456789'']\<rparr> net_ok (ascii ''report.txt'') (ascii ''report.txt''))
       = \<lparr>r_status = Status_ERROR, r_content_type = NO_CONTENT, r_data = None\<rparr>
   \<and> o_attempts (UploadHandler_handle
        \<lparr>ctx_region = REGION,
         ctx_buckets = [handle_at ''b-us-east'' ''us-east'' 250000000,
                        handle_at ''b-la'' ''latin-america'' 250000000],
         ctx_connection = fresh [''0123456789'']\<rparr> net_ok (ascii ''report.txt'') (ascii ''report.txt''))
       = []"
proof -
  let ?buckets = "[handle_at ''b-us-east'' ''us-east'' 250000000,
                   handle_at ''b-la'' ''latin-america'' 250000000]"
  have sel: "select_bucket REGION ?buckets (Some 10) = Inl KeyError"
    by (simp add: select_bucket_def get_bucket_available_space_def handle_at_def
          distances_from_latin_america)
  have rcv: "receive (fresh [''0123456789'']) = (''0123456789'', fresh [])"
    by (rule receive_fresh) (simp add: CHUNK_SIZE_def)
  have len: "length (fst (receive (fresh [''0123456789'']))) = 10"
    unfolding rcv by simp
  define ctx where "ctx = \<lparr>ctx_region = REGION, ctx_buckets = ?buckets,
    ctx_connection = fresh [''0123456789'']\<rparr>"
  have "select_bucket (ctx_region ctx) (ctx_buckets ctx)
          (Some (length (fst (receive (ctx_connection ctx))))) = Inl KeyError"
    using sel len by (simp add: ctx_def)
  from upload_raises [OF this, of net_ok "ascii ''report.txt''" "ascii ''report.txt''"]
  have "UploadHandler_handle
        \<lparr>ctx_region = REGION, ctx_buckets = ?buckets,
         ctx_connection = fresh [''0123456789'']\<rparr> net_ok (ascii ''report.txt'') (ascii ''report.txt'')
      = outcome_of Status_ERROR NO_CONTENT None (Some KeyError)
          (snd (receive (fresh [''0123456789'']))) []"
    by (simp add: ctx_def)
  with sel show ?thesis
    by (simp add: outcome_of_def) (simp add: get_bucket_available_space_def handle_at_def)
qed

theorem select_bucket_nearest_witness:
  "select_bucket REGION buckets3 (Some 10)
     = Inr (Some (handle_at ''b-us-east'' ''us-east'' 250000000))
   \<and> distance REGION (ascii ''asia'') = Inr 11000
   \<and> distance REGION (ascii ''eu'') = Inr 5000
   \<and> distance REGION (ascii ''us-east'') = Inr 1500
   \<and> select_bucket REGION [handle_at ''b-small'' ''eu'' 5] (Some 10) = Inr None
   \<and> o_response (UploadHandler_handle
        \<lparr>ctx_region = REGION, ctx_buckets = [handle_at ''b-small'' ''eu'' 5],
         ctx_connection = fresh [''0123456789'']\<rparr> net_ok (ascii ''report.txt'') (ascii ''report.txt''))
       = \<lparr>r_status = Status_ERROR, r_content_type = NO_CONTENT, r_data = None\<rparr>"
proof -
  let ?asia = "handle_at ''b-asia'' ''asia'' 250000000"
  let ?eu = "handle_at ''b-eu'' ''eu'' 250000000"
  let ?us = "handle_at ''b-us-east'' ''us-east'' 250000000"
  have regions: "c_region ?asia = ascii ''asia''" "c_region ?eu = ascii ''eu''"
    "c_region ?us = ascii ''us-east''"
    by (simp_all add: handle_at_def)
  have space: "get_bucket_available_space (handle_at i r s) = s" for i r s
    by (simp add: get_bucket_available_space_def handle_at_def)
  have entries: "\<forall>b\<in>set buckets3. int 10 \<le> get_bucket_available_space b \<longrightarrow>
                   (\<exists>d. distance REGION (c_region b) = Inr d)"
    by (simp add: buckets3_def regions distances_from_latin_america)
  have some: "\<exists>b\<in>set buckets3. int 10 \<le> get_bucket_available_space b"
    by (simp add: buckets3_def space)
  from select_bucket_nearest [OF entries] some obtain m dm where
    sel: "select_bucket REGION buckets3 (Some 10) = Inr (Some m)"
    and m_in: "m \<in> set buckets3"
    and dm: "distance REGION (c_region m) = Inr dm"
    and least: "\<forall>b\<in>set buckets3. int 10 \<le> get_bucket_available_space b \<longrightarrow>
                 (\<exists>d. distance REGION (c_region b) = Inr d \<and> dm \<le> d)"
    by blast
  from least have "dm \<le> 1500"
    by (simp add: buckets3_def space regions distances_from_latin_america)
  with m_in dm have "m = ?us"
    by (auto simp: buckets3_def regions distances_from_latin_america)
  with sel have first: "select_bucket REGION buckets3 (Some 10) = Inr (Some ?us)"
    by simp
  let ?small = "handle_at ''b-small'' ''eu'' 5"
  let ?ctx = "\<lparr>ctx_region = REGION, ctx_buckets = [?small],
               ctx_connection = fresh [''0123456789'']\<rparr>"
  have rcv: "receive (fresh [''0123456789'']) = (''0123456789'', fresh [])"
    by (rule receive_fresh) (simp add: CHUNK_SIZE_def)
  have no_entries: "\<forall>b\<in>set [?small]. int 10 \<le> get_bucket_available_space b \<longrightarrow>
                   (\<exists>d. distance REGION (c_region b) = Inr d)"
    by (simp add: space)
  have none: "\<not> (\<exists>b\<in>set [?small]. int 10 \<le> get_bucket_available_space b)"
    by (simp add: space)
  from select_bucket_nearest [OF no_entries] none
  have second: "select_bucket REGION [?small] (Some 10) = Inr None"
    and upload: "\<forall>ctx net unused filename.
                  ctx_region ctx = REGION \<and> ctx_buckets ctx = [?small]
                  \<and> length (fst (receive (ctx_connection ctx))) = 10 \<longrightarrow>
                  o_response (UploadHandler_handle ctx net unused filename)
                    = \<lparr>r_status = Status_ERROR, r_content_type = NO_CONTENT, r_data = None\<rparr>
                  \<and> o_error (UploadHandler_handle ctx net unused filename) = Some RuntimeError
                  \<and> o_attempts (UploadHandler_handle ctx net unused filename) = []"
    by blast+
  have "ctx_region ?ctx = REGION \<and> ctx_buckets ?ctx = [?small]
          \<and> length (fst (receive (ctx_connection ?ctx))) = 10"
    by (simp add: rcv)
  with upload have third: "o_response (UploadHandler_handle ?ctx net_ok (ascii ''report.txt'')
        (ascii ''report.txt''))
      = \<lparr>r_status = Status_ERROR, r_content_type = NO_CONTENT, r_data = None\<rparr>"
    by blast
  from first second third show ?thesis
    by (simp add: distances_from_latin_america)
qed

section \<open>Properties of the upload\<close>

lemma distance_cases: "(\<exists>d. distance a b = Inr d) \<or> distance a b = Inl KeyError"
  by (simp add: distance_def split: option.split)

lemma backup_defined:
  assumes "select_bucket region bs (Some sz) = Inr (Some m)"
  shows "\<exists>r. select_bucket region (filter P bs) (Some sz) = Inr r"
proof (rule select_bucket_defined, intro ballI impI)
  fix b
  assume "b \<in> set (filter P bs)" and ok: "int sz \<le> get_bucket_available_space b"
  then have b: "b \<in> set bs" by simp
  show "\<exists>d. distance region (c_region b) = Inr d"
  proof (rule ccontr)
    assume "\<not> (\<exists>d. distance region (c_region b) = Inr d)"
    with distance_cases [of region "c_region b"]
    have "distance region (c_region b) = Inl KeyError" by blast
    from select_bucket_raises [OF b ok this] assms show False by auto
  qed
qed

lemma select_bucket_member:
  "select_bucket region bs (Some sz) = Inr (Some m) \<Longrightarrow> m \<in> set bs"
  using select_bucket_some by blast

lemma put_each_pair:
  "map (\<lambda>(b, sent, r). (b, r)) (put_each net f [Some m, backup]) =
     (case Client_put net m f of
        Inl e \<Rightarrow> [(m, Inl e)]
      | Inr m1 \<Rightarrow> (m, Inr m1) # (case backup of None \<Rightarrow> []
                                  | Some b \<Rightarrow> [(b, Client_put net b f)]))"
proof (cases "Client_put_wire net m f")
  case first: (Pair sent r)
  show ?thesis
  proof (cases r)
    case (Inl e)
    with first show ?thesis by (simp add: Client_put_def)
  next
    case (Inr m1)
    show ?thesis
    proof (cases backup)
      case None
      with first Inr show ?thesis by (simp add: Client_put_def)
    next
      case (Some b)
      obtain sent2 r2 where second: "Client_put_wire net b f = (sent2, r2)"
        by (cases "Client_put_wire net b f")
      with first Inr Some show ?thesis
        by (cases r2) (simp_all add: Client_put_def)
    qed
  qed
qed

lemma upload_attempts:
  assumes "select_bucket (ctx_region ctx) (ctx_buckets ctx)
             (Some (length (fst (receive (ctx_connection ctx))))) = Inr (Some m)"
    and "select_bucket (ctx_region ctx) (filter (\<lambda>b. c_id b \<noteq> c_id m) (ctx_buckets ctx))
             (Some (length (fst (receive (ctx_connection ctx))))) = Inr backup"
  shows "o_attempts (UploadHandler_handle ctx net unused filename) =
           map (\<lambda>(b, sent, r). (b, r))
             (put_each net \<lparr>f_name = filename, f_content = fst (receive (ctx_connection ctx))\<rparr>
                [Some m, backup])"
    and "o_puts (UploadHandler_handle ctx net unused filename) =
           map (\<lambda>(b, sent, r). (b, sent))
             (put_each net \<lparr>f_name = filename, f_content = fst (receive (ctx_connection ctx))\<rparr>
                [Some m, backup])"
  using assms
  by (simp_all add: UploadHandler_handle_def case_prod_beta Let_def outcome_of_def
        split: option.split)

text \<open>
  C3. Once a primary has been selected, the selection of the backup over the known
  buckets without the primary's id raises nothing, a backup it returns has an id other
  than the primary's, and \<open>put\<close> is called first on the primary and then, only if that
  call returned and a backup was selected, on the backup: with no backup the primary is
  the only bucket written to.
\<close>

theorem upload_replication:
  assumes primary: "select_bucket (ctx_region ctx) (ctx_buckets ctx)
                      (Some (length (fst (receive (ctx_connection ctx))))) = Inr (Some m)"
  shows "\<exists>backup.
           select_bucket (ctx_region ctx) (filter (\<lambda>b. c_id b \<noteq> c_id m) (ctx_buckets ctx))
             (Some (length (fst (receive (ctx_connection ctx))))) = Inr backup
         \<and> (\<forall>b. backup = Some b \<longrightarrow> c_id b \<noteq> c_id m)
         \<and> o_attempts (UploadHandler_handle ctx net unused filename) =
             (case Client_put net m
                     \<lparr>f_name = filename, f_content = fst (receive (ctx_connection ctx))\<rparr> of
                Inl e \<Rightarrow> [(m, Inl e)]
              | Inr m1 \<Rightarrow>
                  (m, Inr m1) #
                  (case backup of
                     None \<Rightarrow> []
                   | Some b \<Rightarrow>
                       [(b, Client_put net b
                              \<lparr>f_name = filename,
                               f_content = fst (receive (ctx_connection ctx))\<rparr>)]))"
proof -
  from backup_defined [OF primary] obtain backup where
    backup: "select_bucket (ctx_region ctx)
               (filter (\<lambda>b. c_id b \<noteq> c_id m) (ctx_buckets ctx))
               (Some (length (fst (receive (ctx_connection ctx))))) = Inr backup"
    by blast
  have differs: "c_id b \<noteq> c_id m" if "backup = Some b" for b
  proof -
    from that backup have "select_bucket (ctx_region ctx)
               (filter (\<lambda>b. c_id b \<noteq> c_id m) (ctx_buckets ctx))
               (Some (length (fst (receive (ctx_connection ctx))))) = Inr (Some b)"
      by simp
    then have "b \<in> set (filter (\<lambda>b. c_id b \<noteq> c_id m) (ctx_buckets ctx))"
      by (rule select_bucket_member)
    then show ?thesis by simp
  qed
  have attempts: "o_attempts (UploadHandler_handle ctx net unused filename) =
      (case Client_put net m
              \<lparr>f_name = filename, f_content = fst (receive (ctx_connection ctx))\<rparr> of
         Inl e \<Rightarrow> [(m, Inl e)]
       | Inr m1 \<Rightarrow>
           (m, Inr m1) #
           (case backup of
              None \<Rightarrow> []
            | Some b \<Rightarrow>
                [(b, Client_put net b
                       \<lparr>f_name = filename,
                        f_content = fst (receive (ctx_connection ctx))\<rparr>)]))"
    unfolding upload_attempts(1) [OF primary backup] by (rule put_each_pair)
  from backup differs attempts show ?thesis
    by blast
qed


lemma ascii_is_ascii: "list_all (\<lambda>c. (of_char c :: nat) < 128) s \<Longrightarrow> list_all (\<lambda>c. c < 128) (ascii s)"
  by (induction s) (simp_all add: ascii_def)

text \<open>
  What \<open>Client.put\<close> returns or raises, statement by statement of the source: the
  first exception ends the call.
\<close>

lemma Client_put_returns:
  "Client_put net self f =
     then_do (net (c_host self) (c_port self)) (\<lambda>c0.
     then_do (send c0 (Str (ascii ''PUT '' @ f_name f @ [32]
                             @ str_int (int (length (f_content f)))))) (\<lambda>c1.
     then_do (send c1 (Bytes (f_content f))) (\<lambda>c2.
     (let (reply, c3) = receive c2 in
      then_do (decode reply) (\<lambda>status.
        if strip status \<noteq> StatusCode_value StatusCode_OK then
          (let (more, c4) = receive c3 in
           then_do (decode more) (\<lambda>error. Inl RuntimeError))
        else Inr (self\<lparr>c_files := c_files self @ [f_name f]\<rparr>))))))"
  unfolding Client_put_def Client_put_wire_def
  by (simp add: then_do_def split: sum.split)

lemma put_header:
  assumes "encode name = Inr fb"
  shows "send c (Str (ascii ''PUT '' @ name @ [32] @ str_int n))
           = Inr (sendall c (''PUT '' @ fb @ '' '' @ map char_of (str_int n)))"
proof -
  have verb: "encode (ascii ''PUT '') = Inr ''PUT ''"
    by (simp add: encode_literal)
  have len: "encode ([32] @ str_int n) = Inr ('' '' @ map char_of (str_int n))"
    by (simp add: encode_space encode_str_int)
  have "encode (ascii ''PUT '' @ name @ [32] @ str_int n)
          = Inr (''PUT '' @ fb @ '' '' @ map char_of (str_int n))"
    by (simp only: encode_append [of "ascii ''PUT ''" "name @ [32] @ str_int n"]
          encode_append [of name "[32] @ str_int n"] verb assms len then_do_Inr)
  then show ?thesis
    by (simp only: send_def data.case then_do_Inr)
qed

lemma Client_put_wire_sent:
  assumes "net (c_host b) (c_port b) = Inr cb" and "encode (f_name f) = Inr fb"
  shows "fst (Client_put_wire net b f)
           = outbox cb @ [''PUT '' @ fb @ '' '' @ map char_of (str_int (int (length (f_content f)))),
                          f_content f]"
  unfolding Client_put_wire_def assms(1) sum.case put_header [OF assms(2)] send_Bytes
  by (simp add: sendall_def)

lemma Client_put_wire_refused:
  "net (c_host b) (c_port b) = Inl e \<Longrightarrow> Client_put_wire net b f = ([], Inl e)"
  by (simp add: Client_put_wire_def)

lemma put_each_calls:
  "(b, sent, r) \<in> set (put_each net f bs) \<Longrightarrow> Client_put_wire net b f = (sent, r)"
proof (induction bs)
  case Nil
  then show ?case by simp
next
  case (Cons x bs)
  show ?case
  proof (cases x)
    case None
    with Cons show ?thesis by simp
  next
    case (Some m)
    obtain sent1 r1 where first: "Client_put_wire net m f = (sent1, r1)"
      by (cases "Client_put_wire net m f")
    with Some Cons show ?thesis
      by (cases r1) auto
  qed
qed

lemma put_each_first:
  "put_each net f (Some m # rest) \<noteq> [] \<and> fst (hd (put_each net f (Some m # rest))) = m"
proof -
  obtain sent1 r1 where "Client_put_wire net m f = (sent1, r1)"
    by (cases "Client_put_wire net m f")
  then show ?thesis
    by (cases r1) simp_all
qed

lemma Client_put_wire_ok:
  assumes "list_all (\<lambda>c. c < 128) (f_name f)"
  shows "Client_put_wire net_ok self f
           = ([''PUT '' @ map char_of (f_name f) @ '' ''
                 @ map char_of (str_int (int (length (f_content f)))),
               f_content f],
              Inr (self\<lparr>c_files := c_files self @ [f_name f]\<rparr>))"
proof -
  from assms have name: "encode (f_name f) = Inr (map char_of (f_name f))"
    by (rule encode_ascii)
  have rcv: "receive (sendall (sendall (fresh [''OK'']) x) y)
               = (''OK'', (sendall (sendall (fresh [''OK'']) x) y)\<lparr>inbox := []\<rparr>)" for x y
    by (simp add: receive_def sendall_def fresh_def CHUNK_SIZE_def)
  have ok: "decode ''OK'' = Inr (ascii ''OK'')"
    by (simp add: decode_ascii)
  have st: "strip (ascii ''OK'') = StatusCode_value StatusCode_OK"
    by (simp add: strip_id StatusCode_value_def ascii_def isspace_def)
  show ?thesis
    unfolding Client_put_wire_def net_ok_def sum.case put_header [OF name] send_Bytes rcv
    by (simp add: ok st sendall_def fresh_def)
qed

lemma Client_put_ok:
  assumes "list_all (\<lambda>c. c < 128) (f_name f)"
  shows "Client_put net_ok self f = Inr (self\<lparr>c_files := c_files self @ [f_name f]\<rparr>)"
  by (simp add: Client_put_def Client_put_wire_ok [OF assms])

lemma handle_at_fields:
  "c_region (handle_at i r s) = ascii r" "c_id (handle_at i r s) = ascii i"
  "get_bucket_available_space (handle_at i r s) = s"
  by (simp_all add: handle_at_def get_bucket_available_space_def)

lemma select_buckets3:
  "select_bucket REGION buckets3 (Some 10)
     = Inr (Some (handle_at ''b-us-east'' ''us-east'' 250000000))"
  by (simp add: select_bucket_def buckets3_def handle_at_fields distances_from_latin_america)

lemma select_buckets3_backup:
  "select_bucket REGION
     [handle_at ''b-asia'' ''asia'' 250000000, handle_at ''b-eu'' ''eu'' 250000000] (Some 10)
     = Inr (Some (handle_at ''b-eu'' ''eu'' 250000000))"
  by (simp add: select_bucket_def handle_at_fields distances_from_latin_america)

lemma buckets3_without_primary:
  "filter (\<lambda>b. c_id b \<noteq> c_id (handle_at ''b-us-east'' ''us-east'' 250000000)) buckets3
     = [handle_at ''b-asia'' ''asia'' 250000000, handle_at ''b-eu'' ''eu'' 250000000]"
  by (simp add: buckets3_def handle_at_fields ascii_def)

theorem upload_replication_witness:
  "select_bucket (ctx_region ctx3) (ctx_buckets ctx3)
     (Some (length (fst (receive (ctx_connection ctx3)))))
     = Inr (Some (handle_at ''b-us-east'' ''us-east'' 250000000))
   \<and> c_id (handle_at ''b-eu'' ''eu'' 250000000) \<noteq> c_id (handle_at ''b-us-east'' ''us-east'' 250000000)
   \<and> o_attempts (UploadHandler_handle ctx3 net_ok (ascii ''report.txt'') (ascii ''report.txt''))
       = [(handle_at ''b-us-east'' ''us-east'' 250000000,
           Inr ((handle_at ''b-us-east'' ''us-east'' 250000000)\<lparr>c_files := [ascii ''report.txt'']\<rparr>)),
          (handle_at ''b-eu'' ''eu'' 250000000,
           Inr ((handle_at ''b-eu'' ''eu'' 250000000)\<lparr>c_files := [ascii ''report.txt'']\<rparr>))]
   \<and> o_attempts (UploadHandler_handle ctx3 net_refuse (ascii ''report.txt'') (ascii ''report.txt''))
       = [(handle_at ''b-us-east'' ''us-east'' 250000000, Inl ConnectionRefusedError)]"
proof -
  let ?us = "handle_at ''b-us-east'' ''us-east'' 250000000"
  let ?eu = "handle_at ''b-eu'' ''eu'' 250000000"
  have rcv: "receive (fresh [''0123456789'']) = (''0123456789'', fresh [])"
    by (rule receive_fresh) (simp add: CHUNK_SIZE_def)
  have len: "length (fst (receive (ctx_connection ctx3))) = 10"
    by (simp add: ctx3_def rcv)
  have primary: "select_bucket (ctx_region ctx3) (ctx_buckets ctx3)
                   (Some (length (fst (receive (ctx_connection ctx3))))) = Inr (Some ?us)"
    unfolding len by (simp add: ctx3_def select_buckets3)
  have second: "select_bucket (ctx_region ctx3)
                  (filter (\<lambda>b. c_id b \<noteq> c_id ?us) (ctx_buckets ctx3))
                  (Some (length (fst (receive (ctx_connection ctx3))))) = Inr (Some ?eu)"
    unfolding len by (simp add: ctx3_def buckets3_without_primary select_buckets3_backup)
  have name: "list_all (\<lambda>c. c < 128) (ascii ''report.txt'')"
    by (simp add: ascii_def)
  have files: "c_files ?us = []" "c_files ?eu = []"
    by (simp_all add: handle_at_def)
  have put_ok: "Client_put net_ok b \<lparr>f_name = ascii ''report.txt'', f_content = x\<rparr>
                  = Inr (b\<lparr>c_files := c_files b @ [ascii ''report.txt'']\<rparr>)" for b x
    using Client_put_ok [of "\<lparr>f_name = ascii ''report.txt'', f_content = x\<rparr>" b] name
    by simp
  have put_refused: "Client_put net_refuse b f = Inl ConnectionRefusedError" for b f
    by (simp add: Client_put_def Client_put_wire_def net_refuse_def)
  from upload_replication [OF primary, of net_ok "ascii ''report.txt''" "ascii ''report.txt''"]
    second
  have ok: "o_attempts (UploadHandler_handle ctx3 net_ok (ascii ''report.txt'') (ascii ''report.txt''))
              = [(?us, Inr (?us\<lparr>c_files := [ascii ''report.txt'']\<rparr>)),
                 (?eu, Inr (?eu\<lparr>c_files := [ascii ''report.txt'']\<rparr>))]"
    and differ: "c_id ?eu \<noteq> c_id ?us"
    by (auto simp: put_ok files)
  from upload_replication [OF primary, of net_refuse "ascii ''report.txt''" "ascii ''report.txt''"]
  have refused: "o_attempts (UploadHandler_handle ctx3 net_refuse (ascii ''report.txt'')
                   (ascii ''report.txt'')) = [(?us, Inl ConnectionRefusedError)]"
    by (auto simp: put_refused)
  from primary differ ok refused show ?thesis
    by simp
qed

section \<open>Properties of the dispatch of the manager and of the single receive\<close>

lemma receive_keeps:
  "outbox (snd (receive c)) = outbox c" "closed (snd (receive c)) = closed c"
  by (simp_all add: receive_def split: list.split)

lemma Manager_turn_unknown:
  assumes "decode (fst (receive conn)) = Inr text"
    and "split (strip text) = command # parameters"
    and "HandlerRegistry_get command = None"
  shows "Manager_turn net self conn
           = (self\<lparr>m_log := m_log self @ [Error_run RuntimeError]\<rparr>, snd (receive conn))"
  using assms by (simp add: Manager_turn_def dispatch_def case_prod_beta)

lemma chars_of_ascii: "map char_of (ascii s) = s"
  by (induction s) (simp_all add: ascii_def)

lemma send_chunk_literal:
  assumes "list_all (\<lambda>c. (of_char c :: nat) < 128) s" and "length s \<le> CHUNK_SIZE"
  shows "send_chunk c (ascii s) = Inr (sendall c (s @ replicate (CHUNK_SIZE - length s) (CHR '' '')))"
  using assms send_chunk_ascii [OF ascii_is_ascii [OF assms(1)], of c]
  by (simp add: chars_of_ascii) (simp add: ascii_def)

lemma line_frobnicate: "split (strip (ascii ''frobnicate x'')) = [ascii ''frobnicate'', ascii ''x'']"
  by (simp add: strip_id split_def ascii_def isspace_def)

lemma line_download:
  "split (strip (ascii ''download report.txt'')) = [ascii ''download'', ascii ''report.txt'']"
  by (simp add: strip_id split_def ascii_def isspace_def)

lemma turn_frobnicate:
  "Manager_turn net manager0 (fresh [''frobnicate x''])
     = (\<lparr>m_buckets = [], m_log = [Error_run RuntimeError]\<rparr>, fresh [])"
proof -
  have rcv: "receive (fresh [''frobnicate x'']) = (''frobnicate x'', fresh [])"
    by (rule receive_fresh) (simp add: CHUNK_SIZE_def)
  have "decode (fst (receive (fresh [''frobnicate x'']))) = Inr (ascii ''frobnicate x'')"
    unfolding rcv by (simp add: decode_ascii)
  moreover have "HandlerRegistry_get (ascii ''frobnicate'') = None"
    by (simp add: HandlerRegistry_get_def ascii_def)
  ultimately show ?thesis
    using Manager_turn_unknown [OF _ line_frobnicate, of "fresh [''frobnicate x'']" net manager0]
    by (simp add: rcv manager0_def)
qed

lemma turn_download:
  "Manager_turn net \<lparr>m_buckets = [], m_log = lg\<rparr> (fresh [''download report.txt''])
     = (\<lparr>m_buckets = [], m_log = lg @ [Info_response (ascii ''download'')]\<rparr>,
        \<lparr>inbox = [],
         outbox = [''NOT_FOUND'' @ replicate 1015 (CHR '' ''),
                   ''no-content'' @ replicate 1014 (CHR '' '')],
         closed = True\<rparr>)"
proof -
  have rcv: "receive (fresh [''download report.txt'']) = (''download report.txt'', fresh [])"
    by (rule receive_fresh) (simp add: CHUNK_SIZE_def)
  have get: "HandlerRegistry_get (ascii ''download'') = Some DownloadHandler"
    by (simp add: HandlerRegistry_get_def ascii_def)
  have params: "parse_parameters [ascii ''report.txt''] = Inr ([ascii ''report.txt''], [])"
    by (simp add: ascii_def)
  have disp: "dispatch (fresh [''download report.txt''])
                = Inr (DownloadHandler, [ascii ''report.txt''], [], fresh [])"
    by (simp add: dispatch_def rcv decode_ascii line_download get params
          del: parse_parameters.simps)
  have call: "call_handler DownloadHandler
                \<lparr>ctx_region = REGION, ctx_buckets = [], ctx_connection = fresh []\<rparr> net
                [ascii ''report.txt''] []
              = Inr (outcome_of Status_NOT_FOUND NO_CONTENT None None (fresh []) [])"
    by (simp add: call_handler_def DownloadHandler_handle_def select_bucket_download_def)
  have sent: "Response_send (fresh [])
                \<lparr>r_status = Status_NOT_FOUND, r_content_type = NO_CONTENT, r_data = None\<rparr>
              = Inr (sendall (sendall (fresh []) (''NOT_FOUND'' @ replicate 1015 (CHR '' '')))
                       (''no-content'' @ replicate 1014 (CHR '' '')))"
    by (simp add: Response_send_def Status_value_def ContentType_value_def
          send_chunk_literal CHUNK_SIZE_def)
  show ?thesis
    by (simp add: Manager_turn_def disp wrapper_def call outcome_of_def sent handler_name_def)
      (simp add: close_def sendall_def fresh_def)
qed

text \<open>
  C8. The manager takes a connection that sends \<open>frobnicate x\<close> and then one that
  sends \<open>download report.txt\<close>. The first gets no response and the loop goes on to
  serve the second, which gets its response and is closed; but the first connection is
  left open: on the path of an unknown command nothing calls \<open>close\<close>.
\<close>

theorem unknown_command_left_open:
  "Manager_run net_refuse manager0 [fresh [''frobnicate x''], fresh [''download report.txt'']]
     = (\<lparr>m_buckets = [],
         m_log = [Error_run RuntimeError, Info_response (ascii ''download'')]\<rparr>,
        [\<lparr>inbox = [], outbox = [], closed = False\<rparr>,
         \<lparr>inbox = [],
          outbox = [''NOT_FOUND'' @ replicate 1015 (CHR '' ''),
                    ''no-content'' @ replicate 1014 (CHR '' '')],
          closed = True\<rparr>])"
  by (simp add: turn_frobnicate turn_download) (simp add: fresh_def)

text \<open>
  C10. One \<open>receive\<close> returns at most \<open>CHUNK_SIZE\<close> (1024) bytes, a prefix of what
  the peer has sent, and a strict prefix when the peer has sent more than it returns.
  \<open>handle_put\<close> stores under the file name exactly what its one \<open>receive\<close> returned.
  An upload that selects a primary writes to buckets, the primary first, and what it
  writes to each bucket that accepts the connection is the \<open>PUT\<close> line, with the file
  name and the length of what the manager's one \<open>receive\<close> returned, and then exactly
  the bytes that \<open>receive\<close> returned; to a bucket that refuses the connection it writes
  nothing.
\<close>

theorem single_receive_truncates:
  "length (fst (receive c)) \<le> CHUNK_SIZE
   \<and> prefix (fst (receive c)) (concat (inbox c))
   \<and> (length (fst (receive c)) < length (concat (inbox c)) \<longrightarrow>
        strict_prefix (fst (receive c)) (concat (inbox c)))
   \<and> (handle_put self c (filename # rest) = Inr (StatusCode_OK, c1, self1) \<longrightarrow>
        map_of (b_files self1) filename = Some (fst (receive c)))
   \<and> (ctx_connection ctx = c
        \<and> select_bucket (ctx_region ctx) (ctx_buckets ctx) (Some (length (fst (receive c))))
            = Inr (Some m)
        \<and> encode name = Inr nb \<longrightarrow>
        o_puts (UploadHandler_handle ctx net unused name) \<noteq> []
        \<and> fst (hd (o_puts (UploadHandler_handle ctx net unused name))) = m
        \<and> (\<forall>(b, sent) \<in> set (o_puts (UploadHandler_handle ctx net unused name)).
              case net (c_host b) (c_port b) of
                Inl e \<Rightarrow> sent = []
              | Inr cb \<Rightarrow>
                  sent = outbox cb
                    @ [''PUT '' @ nb @ '' ''
                         @ map char_of (str_int (int (length (fst (receive c))))),
                       fst (receive c)]))"
proof (intro conjI impI)
  show "length (fst (receive c)) \<le> CHUNK_SIZE"
    using receive_prefix by blast
  show p: "prefix (fst (receive c)) (concat (inbox c))"
    using receive_prefix by blast
  show "strict_prefix (fst (receive c)) (concat (inbox c))"
    if "length (fst (receive c)) < length (concat (inbox c))"
    using p that by (auto simp: strict_prefix_def)
  show "map_of (b_files self1) filename = Some (fst (receive c))"
    if "handle_put self c (filename # rest) = Inr (StatusCode_OK, c1, self1)"
    using that by (auto simp: handle_put_unfold update_conv' split: if_splits)
next
  let ?f = "\<lparr>f_name = name, f_content = fst (receive c)\<rparr>"
  assume hyp: "ctx_connection ctx = c
        \<and> select_bucket (ctx_region ctx) (ctx_buckets ctx) (Some (length (fst (receive c))))
            = Inr (Some m)
        \<and> encode name = Inr nb"
  then have c: "ctx_connection ctx = c" and nb: "encode (f_name ?f) = Inr nb"
    and primary: "select_bucket (ctx_region ctx) (ctx_buckets ctx)
          (Some (length (fst (receive (ctx_connection ctx))))) = Inr (Some m)"
    by simp_all
  from backup_defined [OF primary] obtain backup where
    "select_bucket (ctx_region ctx) (filter (\<lambda>b. c_id b \<noteq> c_id m) (ctx_buckets ctx))
       (Some (length (fst (receive (ctx_connection ctx))))) = Inr backup"
    by blast
  from upload_attempts(2) [OF primary this, of net unused name] c
  have puts: "o_puts (UploadHandler_handle ctx net unused name)
                = map (\<lambda>(b, sent, r). (b, sent)) (put_each net ?f [Some m, backup])"
    by simp
  from put_each_first [of net ?f m "[backup]"]
  show "o_puts (UploadHandler_handle ctx net unused name) \<noteq> []"
    unfolding puts by simp
  from put_each_first [of net ?f m "[backup]"]
  show "fst (hd (o_puts (UploadHandler_handle ctx net unused name))) = m"
    unfolding puts by (cases "put_each net ?f [Some m, backup]") auto
  show "\<forall>(b, sent) \<in> set (o_puts (UploadHandler_handle ctx net unused name)).
          case net (c_host b) (c_port b) of
            Inl e \<Rightarrow> sent = []
          | Inr cb \<Rightarrow>
              sent = outbox cb
                @ [''PUT '' @ nb @ '' ''
                     @ map char_of (str_int (int (length (fst (receive c))))),
                   fst (receive c)]"
  proof (clarify)
    fix b sent
    assume "(b, sent) \<in> set (o_puts (UploadHandler_handle ctx net unused name))"
    then obtain r where "(b, sent, r) \<in> set (put_each net ?f [Some m, backup])"
      unfolding puts by auto
    then have call: "Client_put_wire net b ?f = (sent, r)"
      by (rule put_each_calls)
    show "case net (c_host b) (c_port b) of
            Inl e \<Rightarrow> sent = []
          | Inr cb \<Rightarrow>
              sent = outbox cb
                @ [''PUT '' @ nb @ '' ''
                     @ map char_of (str_int (int (length (fst (receive c))))),
                   fst (receive c)]"
    proof (cases "net (c_host b) (c_port b)")
      case (Inl e)
      from Client_put_wire_refused [where net = net and b = b and f = ?f, OF this] call
      show ?thesis
        by (simp add: Inl)
    next
      case (Inr cb)
      from Client_put_wire_sent [where net = net and b = b and f = ?f, OF this nb] call
      show ?thesis
        by (simp add: Inr)
    qed
  qed
qed

lemma select_buckets3_1024:
  "select_bucket REGION buckets3 (Some 1024)
     = Inr (Some (handle_at ''b-us-east'' ''us-east'' 250000000))"
  "select_bucket REGION
     [handle_at ''b-asia'' ''asia'' 250000000, handle_at ''b-eu'' ''eu'' 250000000] (Some 1024)
     = Inr (Some (handle_at ''b-eu'' ''eu'' 250000000))"
  by (simp_all add: select_bucket_def buckets3_def handle_at_fields
        distances_from_latin_america)

theorem single_receive_truncates_witness:
  "fst (receive conn_big) = replicate 1024 (CHR ''x'')
   \<and> concat (inbox conn_big) = replicate 2000 (CHR ''x'')
   \<and> strict_prefix (replicate 1024 (CHR ''x'')) (replicate 2000 (CHR ''x''))
   \<and> (\<exists>c1 self1. handle_put bucket0 conn_big [ascii ''a.txt''] = Inr (StatusCode_OK, c1, self1)
         \<and> map_of (b_files self1) (ascii ''a.txt'') = Some (replicate 1024 (CHR ''x'')))
   \<and> ctx_connection ctx_big = conn_big
   \<and> select_bucket (ctx_region ctx_big) (ctx_buckets ctx_big) (Some 1024)
       = Inr (Some (handle_at ''b-us-east'' ''us-east'' 250000000))
   \<and> encode (ascii ''a.txt'') = Inr ''a.txt''
   \<and> net_ok (c_host (handle_at ''b-us-east'' ''us-east'' 250000000))
        (c_port (handle_at ''b-us-east'' ''us-east'' 250000000)) = Inr (fresh [''OK''])
   \<and> fst (hd (o_puts (UploadHandler_handle ctx_big net_ok (ascii ''a.txt'') (ascii ''a.txt''))))
       = handle_at ''b-us-east'' ''us-east'' 250000000
   \<and> o_puts (UploadHandler_handle ctx_big net_ok (ascii ''a.txt'') (ascii ''a.txt''))
       = [(handle_at ''b-us-east'' ''us-east'' 250000000,
           [''PUT a.txt 1024'', replicate 1024 (CHR ''x'')]),
          (handle_at ''b-eu'' ''eu'' 250000000,
           [''PUT a.txt 1024'', replicate 1024 (CHR ''x'')])]"
proof -
  let ?us = "handle_at ''b-us-east'' ''us-east'' 250000000"
  let ?eu = "handle_at ''b-eu'' ''eu'' 250000000"
  have payload: "concat (inbox conn_big) = replicate 2000 (CHR ''x'')"
    by (simp add: conn_big_def fresh_def)
  obtain c1 self1 where
    put: "handle_put bucket0 conn_big [ascii ''a.txt''] = Inr (StatusCode_OK, c1, self1)"
    by (simp add: handle_put_unfold receive_big bucket0_spec)
  have conn: "ctx_connection ctx_big = conn_big"
    by (simp add: ctx_big_def)
  have len: "length (fst (receive (ctx_connection ctx_big))) = 1024"
    by (simp add: ctx_big_def receive_big)
  have primary: "select_bucket (ctx_region ctx_big) (ctx_buckets ctx_big)
      (Some (length (fst (receive (ctx_connection ctx_big))))) = Inr (Some ?us)"
    unfolding len by (simp add: ctx_big_def select_buckets3_1024)
  have backup: "select_bucket (ctx_region ctx_big)
      (filter (\<lambda>b. c_id b \<noteq> c_id ?us) (ctx_buckets ctx_big))
      (Some (length (fst (receive (ctx_connection ctx_big))))) = Inr (Some ?eu)"
    unfolding len by (simp add: ctx_big_def buckets3_without_primary select_buckets3_1024)
  have digits: "map char_of (str_int 1024) = ''1024''"
    by code_simp
  have name: "list_all (\<lambda>c. c < 128) (ascii ''a.txt'')"
    by (simp add: ascii_def)
  have wire: "Client_put_wire net_ok b
                \<lparr>f_name = ascii ''a.txt'', f_content = replicate 1024 (CHR ''x'')\<rparr>
              = ([''PUT a.txt 1024'', replicate 1024 (CHR ''x'')],
                 Inr (b\<lparr>c_files := c_files b @ [ascii ''a.txt'']\<rparr>))" for b
    using Client_put_wire_ok
            [of "\<lparr>f_name = ascii ''a.txt'', f_content = replicate 1024 (CHR ''x'')\<rparr>" b] name
    by (simp add: chars_of_ascii digits)
  have puts: "o_puts (UploadHandler_handle ctx_big net_ok (ascii ''a.txt'') (ascii ''a.txt''))
       = [(?us, [''PUT a.txt 1024'', replicate 1024 (CHR ''x'')]),
          (?eu, [''PUT a.txt 1024'', replicate 1024 (CHR ''x'')])]"
    using upload_attempts(2) [OF primary backup, of net_ok "ascii ''a.txt''" "ascii ''a.txt''"]
    by (simp add: ctx_big_def receive_big wire)
  from primary have selected: "select_bucket (ctx_region ctx_big) (ctx_buckets ctx_big)
      (Some (length (fst (receive conn_big)))) = Inr (Some ?us)"
    by (simp add: conn)
  from single_receive_truncates
         [of conn_big bucket0 "ascii ''a.txt''" "[]" c1 self1 ctx_big ?us "ascii ''a.txt''"
             "''a.txt''" net_ok "ascii ''a.txt''"]
    put conn selected encode_a_txt
  have "strict_prefix (fst (receive conn_big)) (concat (inbox conn_big))"
    and "map_of (b_files self1) (ascii ''a.txt'') = Some (fst (receive conn_big))"
    and "fst (hd (o_puts (UploadHandler_handle ctx_big net_ok (ascii ''a.txt'') (ascii ''a.txt''))))
           = ?us"
    by (simp_all add: receive_big payload)
  with put puts conn selected show ?thesis
    by (simp add: receive_big payload encode_a_txt net_ok_def)
qed

end
